theory Spec2Isabelle
  imports Main "HOL-Library.Multiset"
begin

section \<open>Python values used by the prompt builders\<close>

text \<open>
  The two notebooks of the repository each define one prompt builder:
  \<^verbatim>\<open>create_training_prompt_formats\<close> (finetune-llama2.ipynb) and
  \<^verbatim>\<open>create_generation_prompt_formats\<close> (run-tuned-model.ipynb). Both
  build a text from an example record, the global registry \<^verbatim>\<open>kg_map\<close> and,
  for the second, the global \<^verbatim>\<open>KG_DEPTH\<close>. Strings are modelled as
  \<^typ>\<open>string\<close>; case conversion is modelled on the ASCII letters.
\<close>

datatype py_error = KeyError | TypeError | AttributeError | ValueError

abbreviation nl :: string where
  "nl \<equiv> [CHR 0x0A]"

definition upper_char :: "char \<Rightarrow> char" where
  "upper_char c =
     (case map_of (zip ''abcdefghijklmnopqrstuvwxyz'' ''ABCDEFGHIJKLMNOPQRSTUVWXYZ'') c of
        None \<Rightarrow> c | Some u \<Rightarrow> u)"

definition lower_char :: "char \<Rightarrow> char" where
  "lower_char c =
     (case map_of (zip ''ABCDEFGHIJKLMNOPQRSTUVWXYZ'' ''abcdefghijklmnopqrstuvwxyz'') c of
        None \<Rightarrow> c | Some l \<Rightarrow> l)"

text \<open>\<^verbatim>\<open>str.lower()\<close>\<close>

definition lower :: "string \<Rightarrow> string" where
  "lower s = map lower_char s"

text \<open>\<^verbatim>\<open>str.capitalize()\<close>: first character upper-cased, the rest lower-cased.\<close>

fun capitalize :: "string \<Rightarrow> string" where
  "capitalize [] = []"
| "capitalize (c # cs) = upper_char c # map lower_char cs"

text \<open>\<^verbatim>\<open>sep.join(xs)\<close>\<close>

fun join :: "string \<Rightarrow> string list \<Rightarrow> string" where
  "join sep [] = []"
| "join sep [x] = x"
| "join sep (x # y # ys) = x @ sep @ join sep (y # ys)"

text \<open>\<^verbatim>\<open>a in b\<close> on strings: \<open>a\<close> occurs in \<open>b\<close> as a contiguous substring.\<close>

fun starts_with :: "string \<Rightarrow> string \<Rightarrow> bool" where
  "starts_with [] ys = True"
| "starts_with (x # xs) [] = False"
| "starts_with (x # xs) (y # ys) = (x = y \<and> starts_with xs ys)"

fun str_in :: "string \<Rightarrow> string \<Rightarrow> bool" where
  "str_in a [] = (a = [])"
| "str_in a (c # cs) = (starts_with a (c # cs) \<or> str_in a cs)"

section \<open>Quest rendering\<close>

text \<open>
  A value of the \<^verbatim>\<open>quest\<close> dictionary is a string or a list of strings. The
  dictionary is an association list in insertion order.
\<close>

datatype qvalue = QStr string | QList "string list"

type_synonym quest = "(string \<times> qvalue) list"

text \<open>
  \<^verbatim>\<open>np.char.capitalize(xs)\<close> converts its argument with \<^verbatim>\<open>numpy.asarray\<close>
  and applies \<^verbatim>\<open>str.capitalize\<close> to every element of a string array. The array of
  an empty list has dtype float64, on which numpy's string operations raise
  \<^verbatim>\<open>TypeError: string operation on non-string array\<close>.
\<close>

definition np_char_capitalize :: "string list \<Rightarrow> py_error + string list" where
  "np_char_capitalize xs = (if xs = [] then Inl TypeError else Inr (map capitalize xs))"

text \<open>
  \<^verbatim>\<open>value = '\n ' + '\n '.join(np.char.capitalize(v[:-1]))\<close>. When \<open>v\<close> is a
  string, \<^verbatim>\<open>np.char.capitalize\<close> returns a 0-dimensional array, which
  \<^verbatim>\<open>join\<close> cannot iterate: TypeError.
\<close>

fun tasks_value :: "qvalue \<Rightarrow> py_error + string" where
  "tasks_value (QList v) =
     (case np_char_capitalize (butlast v) of
        Inl e \<Rightarrow> Inl e
      | Inr caps \<Rightarrow> Inr (nl @ '' '' @ join (nl @ '' '') caps))"
| "tasks_value (QStr v) = Inl TypeError"

text \<open>\<^verbatim>\<open>value = v.capitalize()\<close>; a list has no such method.\<close>

fun other_value :: "qvalue \<Rightarrow> py_error + string" where
  "other_value (QStr v) = Inr (capitalize v)"
| "other_value (QList v) = Inl AttributeError"

text \<open>
  \<^verbatim>\<open>
  quest_str = ''
  for k,v in input['quest'].items():
      if k == 'description':
          continue
      if k == 'tasks':
          value = '\n ' + '\n '.join(np.char.capitalize(v[:-1]))
      else:
          value = v.capitalize()
      quest_str += f'{k.capitalize()}: {value}\n'
  \<close>
  The loop, with \<open>quest_str\<close> as accumulator.
\<close>

fun quest_loop :: "quest \<Rightarrow> string \<Rightarrow> py_error + string" where
  "quest_loop [] quest_str = Inr quest_str"
| "quest_loop ((k, v) # kvs) quest_str =
     (if k = ''description'' then quest_loop kvs quest_str
      else
        (case (if k = ''tasks'' then tasks_value v else other_value v) of
           Inl e \<Rightarrow> Inl e
         | Inr val \<Rightarrow> quest_loop kvs (quest_str @ capitalize k @ '': '' @ val @ nl)))"

definition quest_str :: "quest \<Rightarrow> py_error + string" where
  "quest_str q = quest_loop q []"

text \<open>
  The rendering in the words of the specification: \<open>description\<close> is skipped, the
  \<open>tasks\<close> field lists every task but the last, capitalised, each on its own line
  indented by one blank, and any other field is \<open>Name: Value\<close> and a newline.
\<close>

fun render_field_spec :: "string \<times> qvalue \<Rightarrow> string" where
  "render_field_spec (k, QList ts) =
     (if k = ''description'' then []
      else ''Tasks: '' @ concat (map (\<lambda>t. nl @ '' '' @ capitalize t) (butlast ts)) @ nl)"
| "render_field_spec (k, QStr s) =
     (if k = ''description'' then []
      else capitalize k @ '': '' @ capitalize s @ nl)"

definition quest_str_spec :: "quest \<Rightarrow> string" where
  "quest_str_spec q = concat (map render_field_spec q)"

text \<open>
  The shape of a quest dictionary that the loop renders: \<open>tasks\<close> holds a list of at
  least two tasks, every other field but \<open>description\<close> holds a string.
\<close>

fun field_ok :: "string \<times> qvalue \<Rightarrow> bool" where
  "field_ok (k, QList ts) = (k = ''description'' \<or> (k = ''tasks'' \<and> 2 \<le> length ts))"
| "field_ok (k, QStr s) = (k = ''description'' \<or> k \<noteq> ''tasks'')"

definition quest_ok :: "quest \<Rightarrow> bool" where
  "quest_ok q = list_all field_ok q"

section \<open>Examples, knowledge graphs and the composition state\<close>

text \<open>
  An entry of \<^verbatim>\<open>input['kbs']\<close>; a relation is a pair of a label
  (\<^verbatim>\<open>rel[0]\<close>) and a target entity (\<^verbatim>\<open>rel[1]\<close>).
\<close>

record kb =
  kb_name :: string
  kb_description :: string
  kb_type :: string
  kb_relations :: "(string \<times> string) list"

record example =
  ex_game :: string
  ex_plots :: "string list"
  ex_kbs :: "kb list"
  ex_quest :: quest

text \<open>
  A graph as \<^verbatim>\<open>nx.read_gml\<close> returns it: the nodes with their attribute
  dictionaries in the graph's own order, and for every node its neighbours, in
  order, each with the attribute dictionary of the edge. (For an undirected graph
  every edge is listed at both of its ends.) The builders read an edge as
  \<^verbatim>\<open>kg[ent1][ent2]['label']\<close>, the indexing of a graph without parallel
  edges, so each neighbour carries one attribute dictionary. Attribute values are
  strings.
\<close>

type_synonym attrs = "(string \<times> string) list"

record kg =
  kg_nodes :: "(string \<times> attrs) list"
  kg_adj :: "(string \<times> (string \<times> attrs) list) list"

text \<open>\<^verbatim>\<open>G.neighbors(n)\<close>\<close>

definition neighbors :: "kg \<Rightarrow> string \<Rightarrow> string list" where
  "neighbors g n = (case map_of (kg_adj g) n of None \<Rightarrow> [] | Some nbrs \<Rightarrow> map fst nbrs)"

text \<open>\<^verbatim>\<open>all_nodes[n][a]\<close>, a KeyError when the node or the attribute is absent.\<close>

definition node_attr :: "kg \<Rightarrow> string \<Rightarrow> string \<Rightarrow> py_error + string" where
  "node_attr g n a =
     (case map_of (kg_nodes g) n of
        None \<Rightarrow> Inl KeyError
      | Some d \<Rightarrow> (case map_of d a of None \<Rightarrow> Inl KeyError | Some v \<Rightarrow> Inr v))"

text \<open>\<^verbatim>\<open>kg[ent1][ent2]['label']\<close>\<close>

definition edge_label :: "kg \<Rightarrow> string \<Rightarrow> string \<Rightarrow> py_error + string" where
  "edge_label g ent1 ent2 =
     (case map_of (kg_adj g) ent1 of
        None \<Rightarrow> Inl KeyError
      | Some nbrs \<Rightarrow>
          (case map_of nbrs ent2 of
             None \<Rightarrow> Inl KeyError
           | Some d \<Rightarrow> (case map_of d ''label'' of None \<Rightarrow> Inl KeyError | Some v \<Rightarrow> Inr v)))"

text \<open>
  Modelled from the spec: \<^verbatim>\<open>nx.dfs_edges\<close> belongs to the networkx library, which
  is not among the sources. The specification asks for "a depth-first edge traversal
  from that node bounded by depth hops, producing an ordered sequence of (source,
  target) edges"; the definition follows the library's traversal: the children of
  a node are taken in adjacency order, an edge to an unvisited child is produced
  and the child marked visited, and the child is expanded only while the hop
  counter \<open>depth_now\<close> exceeds one.
\<close>

fun dfs_visit ::
  "kg \<Rightarrow> nat \<Rightarrow> string \<Rightarrow> string list \<Rightarrow> string set \<Rightarrow> (string \<times> string) list \<times> string set"
where
  "dfs_visit g depth_now parent [] visited = ([], visited)"
| "dfs_visit g depth_now parent (child # children) visited =
     (if child \<in> visited then dfs_visit g depth_now parent children visited
      else
        (let (below, visited1) =
               (if 1 < depth_now
                then dfs_visit g (depth_now - 1) child (neighbors g child) (insert child visited)
                else ([], insert child visited));
             (rest, visited2) = dfs_visit g depth_now parent children visited1
         in ((parent, child) # below @ rest, visited2)))"

text \<open>
  \<^verbatim>\<open>nx.dfs_edges(G, source=source, depth_limit=depth_limit)\<close>; without a
  limit the library uses the number of nodes.
\<close>

definition dfs_edges :: "kg \<Rightarrow> string \<Rightarrow> nat option \<Rightarrow> (string \<times> string) list" where
  "dfs_edges g source depth_limit =
     (let limit = (case depth_limit of None \<Rightarrow> length (kg_nodes g) | Some d \<Rightarrow> d)
      in fst (dfs_visit g limit source (neighbors g source) {source}))"

text \<open>\<open>target\<close> can be reached from \<open>source\<close> along at most \<open>n\<close> edges.\<close>

fun within_hops :: "kg \<Rightarrow> nat \<Rightarrow> string \<Rightarrow> string \<Rightarrow> bool" where
  "within_hops g 0 source target = (source = target)"
| "within_hops g (Suc n) source target =
     (source = target \<or> (\<exists>mid \<in> set (neighbors g source). within_hops g n mid target))"

text \<open>
  Modelled from the spec: \<^verbatim>\<open>random.sample\<close> belongs to Python's standard library,
  which is not among the sources. The specification asks for "a random sample
  without replacement", drawn from "an injectable random-source". The random source
  is the sequence of its future raw draws; \<open>randbelow\<close> consumes one draw. The
  selection follows the library's pool algorithm: the chosen element leaves the
  pool and the last live element of the pool takes its place. The library refuses
  a sample size that is negative or larger than the population with a ValueError;
  below that bound \<open>randbelow\<close> is only asked for a number below a positive
  \<open>live\<close>.
\<close>

type_synonym rng = "nat \<Rightarrow> nat"

definition randbelow :: "rng \<Rightarrow> nat \<Rightarrow> nat \<times> rng" where
  "randbelow g n = (g 0 mod n, \<lambda>i. g (Suc i))"

fun sample_loop :: "'a list \<Rightarrow> nat \<Rightarrow> nat \<Rightarrow> rng \<Rightarrow> 'a list \<times> rng" where
  "sample_loop pool live 0 g = ([], g)"
| "sample_loop pool live (Suc k) g =
     (let (j, g1) = randbelow g live;
          (result, g2) = sample_loop (pool[j := pool ! (live - 1)]) (live - 1) k g1
      in (pool ! j # result, g2))"

definition random_sample :: "'a list \<Rightarrow> int \<Rightarrow> rng \<Rightarrow> py_error + ('a list \<times> rng)" where
  "random_sample population k g =
     (if \<not> (0 \<le> k \<and> k \<le> int (length population)) then Inl ValueError
      else Inr (sample_loop population (length population) (nat k) g))"

text \<open>
  The three accumulators of a composition: the text built so far and the two
  Python lists \<^verbatim>\<open>completed_rels\<close> and \<^verbatim>\<open>completed_nodes\<close>.
\<close>

record state =
  background :: string
  completed_rels :: "(string \<times> string) list"
  completed_nodes :: "string list"

definition init_state :: state where
  "init_state = \<lparr>background = [], completed_rels = [], completed_nodes = []\<rparr>"

text \<open>A loop over a list whose body may raise.\<close>

fun for_each :: "('a \<Rightarrow> 's \<Rightarrow> py_error + 's) \<Rightarrow> 'a list \<Rightarrow> 's \<Rightarrow> py_error + 's" where
  "for_each body [] s = Inr s"
| "for_each body (x # xs) s =
     (case body x s of Inl e \<Rightarrow> Inl e | Inr s' \<Rightarrow> for_each body xs s')"

section \<open>Phase A: the entities of the example\<close>

text \<open>
  \<^verbatim>\<open>
  for rel in relations:
      background += f'{entity} is {rel[0]} {rel[1]}. '
      completed_rels.append((entity, rel[1]))
  \<close>
  The training notebook ends the sentence with \<^verbatim>\<open>'.'\<close>, the generation
  notebook with \<^verbatim>\<open>'. '\<close>; \<open>stop\<close> is that ending.
\<close>

fun relations_loop :: "string \<Rightarrow> string \<Rightarrow> (string \<times> string) list \<Rightarrow> state \<Rightarrow> state" where
  "relations_loop stop entity [] st = st"
| "relations_loop stop entity (rel # rels) st =
     relations_loop stop entity rels
       (st\<lparr>background := background st @ entity @ '' is '' @ fst rel @ '' '' @ snd rel @ stop,
           completed_rels := completed_rels st @ [(entity, snd rel)]\<rparr>)"

text \<open>
  The body of \<^verbatim>\<open>for kb in input['kbs']\<close> in
  \<^verbatim>\<open>create_training_prompt_formats\<close>:
  \<^verbatim>\<open>
  background += f'{entity} is a {e_type}. '
  if entity != e_desc:
      background+= f'{entity} is {e_desc}. '
  for rel in e_relations:
      background += f'{entity} is {rel[0]} {rel[1]}.'
      completed_rels.append((entity, rel[1]))
  completed_nodes.append(entity)
  background += '\n'
  \<close>
\<close>

definition kb_step_train :: "kb \<Rightarrow> state \<Rightarrow> state" where
  "kb_step_train kb st =
     (let entity = kb_name kb; e_desc = kb_description kb; e_type = kb_type kb;
          e_relations = kb_relations kb;
          st1 = st\<lparr>background := background st @ entity @ '' is a '' @ e_type @ ''. ''\<rparr>;
          st2 = (if entity \<noteq> e_desc
                 then st1\<lparr>background := background st1 @ entity @ '' is '' @ e_desc @ ''. ''\<rparr>
                 else st1);
          st3 = relations_loop ''.'' entity e_relations st2;
          st4 = st3\<lparr>completed_nodes := completed_nodes st3 @ [entity]\<rparr>
      in st4\<lparr>background := background st4 @ nl\<rparr>)"

text \<open>
  The choice of \<^verbatim>\<open>relations\<close> in \<^verbatim>\<open>create_generation_prompt_formats\<close>:
  \<^verbatim>\<open>
  if KG_DEPTH > 0:
      ...
      depth = KG_DEPTH - 1
      if depth > len(e_relations):
          depth = len(e_relations)
      relations = random.sample(e_relations, depth)
  else:
      relations = e_relations
  \<close>
\<close>

definition choose_relations ::
  "int \<Rightarrow> (string \<times> string) list \<Rightarrow> rng \<Rightarrow> py_error + ((string \<times> string) list \<times> rng)"
where
  "choose_relations KG_DEPTH e_relations g =
     (if 0 < KG_DEPTH then
        (let depth = KG_DEPTH - 1;
             depth = (if int (length e_relations) < depth then int (length e_relations) else depth)
         in random_sample e_relations depth g)
      else Inr (e_relations, g))"

text \<open>
  The body of \<^verbatim>\<open>for kb in input['kbs']\<close> in
  \<^verbatim>\<open>create_generation_prompt_formats\<close>; the description sentence is inside
  the branch \<^verbatim>\<open>KG_DEPTH > 0\<close>.
\<close>

definition kb_step_gen :: "int \<Rightarrow> kb \<Rightarrow> state \<times> rng \<Rightarrow> py_error + (state \<times> rng)" where
  "kb_step_gen KG_DEPTH kb sg =
     (let st = fst sg; g = snd sg;
          entity = kb_name kb; e_desc = kb_description kb; e_type = kb_type kb;
          e_relations = kb_relations kb;
          st1 = st\<lparr>background := background st @ entity @ '' is a '' @ e_type @ ''. ''\<rparr>;
          st2 = (if 0 < KG_DEPTH \<and> entity \<noteq> e_desc
                 then st1\<lparr>background := background st1 @ entity @ '' is '' @ e_desc @ ''. ''\<rparr>
                 else st1)
      in (case choose_relations KG_DEPTH e_relations g of
            Inl e \<Rightarrow> Inl e
          | Inr (relations, g') \<Rightarrow>
              (let st3 = relations_loop ''. '' entity relations st2;
                   st4 = st3\<lparr>completed_nodes := completed_nodes st3 @ [entity]\<rparr>
               in Inr (st4\<lparr>background := background st4 @ nl\<rparr>, g'))))"

section \<open>Phase B: the entities found in the plots\<close>

text \<open>
  The introduction of a node in the edge loop,
  \<^verbatim>\<open>
  if ent not in completed_nodes:
      background += f'{shown} is a {e_type}. '
      if e_desc != ent:
          background += f'{ent} is {e_desc}. '
      completed_nodes.append(ent)
      background += '\n'
  \<close>
  where \<open>shown\<close> is the name written in the first sentence.
\<close>

definition introduce :: "string \<Rightarrow> string \<Rightarrow> string \<Rightarrow> string \<Rightarrow> state \<Rightarrow> state" where
  "introduce ent shown e_type e_desc st =
     (if ent \<notin> set (completed_nodes st) then
        st\<lparr>background :=
             background st @ shown @ '' is a '' @ e_type @ ''. '' @
             (if e_desc \<noteq> ent then ent @ '' is '' @ e_desc @ ''. '' else []) @ nl,
           completed_nodes := completed_nodes st @ [ent]\<rparr>
      else st)"

text \<open>
  The relation sentence of an edge, the same in both notebooks:
  \<^verbatim>\<open>
  if rel == 'connected to':
      background += f'{ent1} is {rel} {ent2}. '
  if rel == 'present in':
      if e1_type == 'location':
          background += f'{ent2} is {rel} {ent2}. '
      else:
          background += f'{ent1} is {rel} {ent2}. '
  if rel == 'held by':
      if e1_type == 'character':
          background += f'{ent2} is {rel} {ent1}. '
      else:
          background += f'{ent1} is {rel} {ent2}. '
  \<close>
\<close>

definition relation_sentence :: "string \<Rightarrow> string \<Rightarrow> string \<Rightarrow> string \<Rightarrow> string" where
  "relation_sentence rel e1_type ent1 ent2 =
     (if rel = ''connected to'' then ent1 @ '' is '' @ rel @ '' '' @ ent2 @ ''. '' else []) @
     (if rel = ''present in'' then
        (if e1_type = ''location'' then ent2 @ '' is '' @ rel @ '' '' @ ent2 @ ''. ''
         else ent1 @ '' is '' @ rel @ '' '' @ ent2 @ ''. '')
      else []) @
     (if rel = ''held by'' then
        (if e1_type = ''character'' then ent2 @ '' is '' @ rel @ '' '' @ ent1 @ ''. ''
         else ent1 @ '' is '' @ rel @ '' '' @ ent2 @ ''. '')
      else [])"

text \<open>
  The body of \<^verbatim>\<open>for ent1, ent2 in edges\<close>. The two notebooks differ in one
  place: the first sentence for \<open>ent2\<close> is \<^verbatim>\<open>f'{ent2} is a {e2_type}. '\<close> in
  the generation notebook and \<^verbatim>\<open>f'{ent1} is a {e2_type}. '\<close> in the training
  notebook. \<open>training\<close> selects the notebook.
\<close>

definition edge_step :: "bool \<Rightarrow> kg \<Rightarrow> string \<times> string \<Rightarrow> state \<Rightarrow> py_error + state" where
  "edge_step training g edge st =
     (let ent1 = fst edge; ent2 = snd edge in
      if (ent1, ent2) \<in> set (completed_rels st) \<or> (ent2, ent1) \<in> set (completed_rels st)
      then Inr st
      else
        (case node_attr g ent1 ''type'' of Inl e \<Rightarrow> Inl e | Inr e1_type \<Rightarrow>
        (case node_attr g ent1 ''description'' of Inl e \<Rightarrow> Inl e | Inr e1_desc \<Rightarrow>
        (case node_attr g ent2 ''type'' of Inl e \<Rightarrow> Inl e | Inr e2_type \<Rightarrow>
        (case node_attr g ent2 ''description'' of Inl e \<Rightarrow> Inl e | Inr e2_desc \<Rightarrow>
          (let st1 = introduce ent1 ent1 e1_type e1_desc st;
               st2 = introduce ent2 (if training then ent1 else ent2) e2_type e2_desc st1
           in (case edge_label g ent1 ent2 of
                 Inl e \<Rightarrow> Inl e
               | Inr rel \<Rightarrow>
                   Inr (st2\<lparr>background :=
                              background st2 @ relation_sentence rel e1_type ent1 ent2 @ nl,
                            completed_rels := completed_rels st2 @ [(ent1, ent2)]\<rparr>))))))))"

definition edge_step_train :: "kg \<Rightarrow> string \<times> string \<Rightarrow> state \<Rightarrow> py_error + state" where
  "edge_step_train = edge_step True"

definition edge_step_gen :: "kg \<Rightarrow> string \<times> string \<Rightarrow> state \<Rightarrow> py_error + state" where
  "edge_step_gen = edge_step False"

text \<open>
  The body of \<^verbatim>\<open>for node in all_nodes\<close>:
  \<^verbatim>\<open>
  entity = node[0]
  if entity.lower() in plots.lower():
      edges = list(nx.dfs_edges(kg, source=entity))
      for ent1, ent2 in edges: ...
  \<close>
  (training) and, with \<^verbatim>\<open>depth_limit=KG_DEPTH\<close>, the same in the generation
  notebook.
\<close>

definition node_step_train :: "kg \<Rightarrow> string \<Rightarrow> string \<times> attrs \<Rightarrow> state \<Rightarrow> py_error + state" where
  "node_step_train g plots node st =
     (let entity = fst node in
      if str_in (lower entity) (lower plots)
      then for_each (edge_step_train g) (dfs_edges g entity None) st
      else Inr st)"

definition node_step_gen ::
  "int \<Rightarrow> kg \<Rightarrow> string \<Rightarrow> string \<times> attrs \<Rightarrow> state \<Rightarrow> py_error + state"
where
  "node_step_gen KG_DEPTH g plots node st =
     (let entity = fst node in
      if str_in (lower entity) (lower plots)
      then for_each (edge_step_gen g) (dfs_edges g entity (Some (nat KG_DEPTH))) st
      else Inr st)"

section \<open>The two prompt builders\<close>

text \<open>\<^verbatim>\<open>plots = f"{PLOTS_KEY}\n{plots_str}"\<close>\<close>

definition plots_section :: "example \<Rightarrow> string" where
  "plots_section input = ''### Plots:'' @ nl @ join nl (ex_plots input)"

text \<open>
  The block \<^verbatim>\<open>if TRAIN_TYPE == 'text_kg'\<close> of
  \<^verbatim>\<open>create_training_prompt_formats\<close>, up to the final state of the three
  accumulators: the loop over the kbs, the lookup \<^verbatim>\<open>kg_map[input['game']]\<close>, the
  loop over the nodes.
\<close>

definition text_kg_train :: "(string \<rightharpoonup> kg) \<Rightarrow> example \<Rightarrow> py_error + state" where
  "text_kg_train kg_map input =
     (let plots = plots_section input;
          st = fold kb_step_train (ex_kbs input) init_state
      in (case kg_map (ex_game input) of
            None \<Rightarrow> Inl KeyError
          | Some g \<Rightarrow> for_each (node_step_train g plots) (kg_nodes g) st))"

text \<open>
  The same block of \<^verbatim>\<open>create_generation_prompt_formats\<close>; the lookup and the
  loop over the nodes are inside \<^verbatim>\<open>if KG_DEPTH > 0\<close>.
\<close>

definition phase_a_gen :: "int \<Rightarrow> kb list \<Rightarrow> rng \<Rightarrow> py_error + (state \<times> rng)" where
  "phase_a_gen KG_DEPTH kbs g = for_each (kb_step_gen KG_DEPTH) kbs (init_state, g)"

definition text_kg_gen :: "int \<Rightarrow> (string \<rightharpoonup> kg) \<Rightarrow> example \<Rightarrow> rng \<Rightarrow> py_error + state" where
  "text_kg_gen KG_DEPTH kg_map input g =
     (let plots = plots_section input in
      case phase_a_gen KG_DEPTH (ex_kbs input) g of
        Inl e \<Rightarrow> Inl e
      | Inr (st, g') \<Rightarrow>
          (if 0 < KG_DEPTH then
             (case kg_map (ex_game input) of
                None \<Rightarrow> Inl KeyError
              | Some kg \<Rightarrow> for_each (node_step_gen KG_DEPTH kg plots) (kg_nodes kg) st)
           else Inr st))"

text \<open>\<^verbatim>\<open>background = f"{BACKGROUND}\n{background}"\<close>\<close>

definition background_section :: "state \<Rightarrow> string" where
  "background_section st = ''### Background:'' @ nl @ background st"

definition blurb :: string where
  "blurb = ''The quest related to the above information is as follows:''"

text \<open>\<^verbatim>\<open>[part for part in parts if part]\<close>: the non-empty parts.\<close>

definition non_empty :: "string list \<Rightarrow> string list" where
  "non_empty parts = filter (\<lambda>part. part \<noteq> []) parts"

text \<open>
  \<^verbatim>\<open>create_training_prompt_formats(input)\<close>, with the globals
  \<^verbatim>\<open>TRAIN_TYPE\<close> and \<^verbatim>\<open>kg_map\<close> as arguments; the result is
  \<^verbatim>\<open>input['text']\<close>.
\<close>

definition create_training_prompt_formats ::
  "string \<Rightarrow> (string \<rightharpoonup> kg) \<Rightarrow> example \<Rightarrow> py_error + string"
where
  "create_training_prompt_formats TRAIN_TYPE kg_map input =
     (let plots = plots_section input in
      case (if TRAIN_TYPE = ''text_kg''
            then map_sum id background_section (text_kg_train kg_map input)
            else Inr []) of
        Inl e \<Rightarrow> Inl e
      | Inr bg \<Rightarrow>
          (case quest_str (ex_quest input) of
             Inl e \<Rightarrow> Inl e
           | Inr qs \<Rightarrow>
               (let quest = ''### Quest:'' @ nl @ qs; end_key = ''### End'';
                    parts = (if TRAIN_TYPE \<in> set [''no_kg'', ''tree_kg'']
                             then non_empty [plots, blurb, quest, end_key]
                             else non_empty [bg, plots, blurb, quest, end_key])
                in Inr (join (nl @ nl) parts))))"

text \<open>
  \<^verbatim>\<open>create_generation_prompt_formats(input)\<close>, with the globals
  \<^verbatim>\<open>TRAIN_TYPE\<close>, \<^verbatim>\<open>KG_DEPTH\<close>, \<^verbatim>\<open>kg_map\<close> and the state of
  the random generator as arguments; the result is the pair of
  \<^verbatim>\<open>input['text']\<close> and \<^verbatim>\<open>input['output']\<close>.
\<close>

definition create_generation_prompt_formats ::
  "string \<Rightarrow> int \<Rightarrow> (string \<rightharpoonup> kg) \<Rightarrow> example \<Rightarrow> rng \<Rightarrow> py_error + (string \<times> string)"
where
  "create_generation_prompt_formats TRAIN_TYPE KG_DEPTH kg_map input g =
     (let plots = plots_section input in
      case (if TRAIN_TYPE = ''text_kg''
            then map_sum id background_section (text_kg_gen KG_DEPTH kg_map input g)
            else Inr []) of
        Inl e \<Rightarrow> Inl e
      | Inr bg \<Rightarrow>
          (case quest_str (ex_quest input) of
             Inl e \<Rightarrow> Inl e
           | Inr qs \<Rightarrow>
               (let quest = ''### Quest:'' @ nl @ qs; end_key = ''### End'';
                    parts_p = (if TRAIN_TYPE \<in> set [''no_kg'', ''tree_kg'']
                               then non_empty [plots, blurb]
                               else non_empty [bg, plots, blurb]);
                    parts_o = non_empty [quest, end_key]
                in Inr (join (nl @ nl) parts_p, join (nl @ nl) parts_o))))"

section \<open>Closed forms used in the statements\<close>

text \<open>
  What the generation notebook writes for one kb when \<^verbatim>\<open>KG_DEPTH\<close> is zero or
  less: the introduction and every relation of the kb, in order (the description
  sentence belongs to the branch \<^verbatim>\<open>KG_DEPTH > 0\<close>).
\<close>

definition kb_block_all :: "kb \<Rightarrow> string" where
  "kb_block_all kb =
     kb_name kb @ '' is a '' @ kb_type kb @ ''. '' @
     concat (map (\<lambda>rel. kb_name kb @ '' is '' @ fst rel @ '' '' @ snd rel @ ''. '')
               (kb_relations kb)) @ nl"

text \<open>The accumulators after such a Phase A: they mention the kbs and their relations only.\<close>

definition phase_a_all :: "kb list \<Rightarrow> state" where
  "phase_a_all kbs =
     \<lparr>background = concat (map kb_block_all kbs),
      completed_rels =
        concat (map (\<lambda>kb. map (\<lambda>rel. (kb_name kb, snd rel)) (kb_relations kb)) kbs),
      completed_nodes = map kb_name kbs\<rparr>"

text \<open>
  The number of draws that the generation notebook takes from the random source
  for one kb (one per sampled relation), and for the kbs of an example.
\<close>

definition draws_kb :: "int \<Rightarrow> kb \<Rightarrow> nat" where
  "draws_kb KG_DEPTH kb =
     (if 0 < KG_DEPTH then min (nat (KG_DEPTH - 1)) (length (kb_relations kb)) else 0)"

definition draws :: "int \<Rightarrow> kb list \<Rightarrow> nat" where
  "draws KG_DEPTH kbs = sum_list (map (draws_kb KG_DEPTH) kbs)"

text \<open>
  The test of the edge loop, \<^verbatim>\<open>(ent1, ent2) in completed_rels or (ent2, ent1) in
  completed_rels\<close>, and the lists of pairs in which no pair passes that test
  against the pairs \<open>seen\<close> before it.
\<close>

definition rel_done :: "(string \<times> string) list \<Rightarrow> string \<times> string \<Rightarrow> bool" where
  "rel_done seen e = (e \<in> set seen \<or> (snd e, fst e) \<in> set seen)"



text \<open>
  The edges that the node loop hands to the edge loop, in order: for every node
  whose name occurs in the plots, the traversal from it. \<open>limit\<close> is
  \<open>Some (nat KG_DEPTH)\<close> in the generation notebook and \<open>None\<close> in the training
  notebook.
\<close>

definition plot_traversal ::
  "nat option \<Rightarrow> kg \<Rightarrow> string \<Rightarrow> (string \<times> attrs) list \<Rightarrow> (string \<times> string) list"
where
  "plot_traversal limit g plots nodes =
     concat (map (\<lambda>node. if str_in (lower (fst node)) (lower plots)
                          then dfs_edges g (fst node) limit else []) nodes)"

text \<open>
  The edges of a list that pass the test of the edge loop, each against the pairs
  \<open>seen\<close> before it and the edges kept before it.
\<close>

fun fresh_edges :: "(string \<times> string) list \<Rightarrow> (string \<times> string) list \<Rightarrow> (string \<times> string) list" where
  "fresh_edges seen [] = []"
| "fresh_edges seen (e # es) =
     (if rel_done seen e then fresh_edges seen es else e # fresh_edges (seen @ [e]) es)"

text \<open>
  What Phase B writes, as a list of events: the introduction of a node (with the
  name shown in its first sentence) and the relation of an edge. For each edge,
  in order: its source is introduced unless it is \<open>known\<close>, then its target
  unless it is known by then, then the edge is related. In the generation
  notebook a node is shown under its own name; in the training notebook the
  target of an edge is shown under the name of the source.
\<close>

datatype event = Introduce string string | Relate string string

fun edge_events :: "bool \<Rightarrow> string list \<Rightarrow> (string \<times> string) list \<Rightarrow> event list" where
  "edge_events training known [] = []"
| "edge_events training known (e # es) =
     (if fst e \<in> set known then [] else [Introduce (fst e) (fst e)]) @
     (if snd e \<in> set known \<or> snd e = fst e then []
      else [Introduce (snd e) (if training then fst e else snd e)]) @
     [Relate (fst e) (snd e)] @
     edge_events training
       (known @ (if fst e \<in> set known then [] else [fst e]) @
        (if snd e \<in> set known \<or> snd e = fst e then [] else [snd e])) es"

fun introduced :: "event list \<Rightarrow> string list" where
  "introduced [] = []"
| "introduced (Introduce ent shown # evs) = ent # introduced evs"
| "introduced (Relate ent1 ent2 # evs) = introduced evs"

fun related :: "event list \<Rightarrow> (string \<times> string) list" where
  "related [] = []"
| "related (Introduce ent shown # evs) = related evs"
| "related (Relate ent1 ent2 # evs) = (ent1, ent2) # related evs"

text \<open>The attributes of a graph that has them (the empty string otherwise).\<close>

definition attr :: "kg \<Rightarrow> string \<Rightarrow> string \<Rightarrow> string" where
  "attr g n a = (case node_attr g n a of Inl e \<Rightarrow> [] | Inr v \<Rightarrow> v)"

definition label :: "kg \<Rightarrow> string \<Rightarrow> string \<Rightarrow> string" where
  "label g ent1 ent2 = (case edge_label g ent1 ent2 of Inl e \<Rightarrow> [] | Inr v \<Rightarrow> v)"

text \<open>
  The text of an event: the introduction sentence \<open>shown is a type. \<close>, the
  description sentence when the description differs from the name, and a newline;
  or the relation sentence that the label selects (none for another label), and a
  newline.
\<close>

fun event_text :: "kg \<Rightarrow> event \<Rightarrow> string" where
  "event_text g (Introduce ent shown) =
     shown @ '' is a '' @ attr g ent ''type'' @ ''. '' @
     (if attr g ent ''description'' \<noteq> ent
      then ent @ '' is '' @ attr g ent ''description'' @ ''. '' else []) @ nl"
| "event_text g (Relate ent1 ent2) =
     relation_sentence (label g ent1 ent2) (attr g ent1 ''type'') ent1 ent2 @ nl"


section \<open>A small game, for the concrete runs\<close>

text \<open>
  An undirected graph of three nodes: Delilah is present in Manor, Manor is
  connected to Cellar.
\<close>

definition manor_graph :: kg where
  "manor_graph =
     \<lparr>kg_nodes =
        [(''Delilah'', [(''type'', ''character''), (''description'', ''the leader of the witches'')]),
         (''Manor'', [(''type'', ''location''), (''description'', ''a lair'')]),
         (''Cellar'', [(''type'', ''location''), (''description'', ''Cellar'')])],
      kg_adj =
        [(''Delilah'', [(''Manor'', [(''label'', ''present in'')])]),
         (''Manor'', [(''Delilah'', [(''label'', ''present in'')]),
                      (''Cellar'', [(''label'', ''connected to'')])]),
         (''Cellar'', [(''Manor'', [(''label'', ''connected to'')])])]\<rparr>"

text \<open>An example with one kb, whose plot names Delilah and the manor.\<close>

definition manor_example :: example where
  "manor_example =
     \<lparr>ex_game = ''G'', ex_plots = [''Delilah hides in the manor.''],
      ex_kbs = [\<lparr>kb_name = ''Delilah'', kb_description = ''the leader of the witches'',
                 kb_type = ''character'', kb_relations = [(''present in'', ''Manor'')]\<rparr>],
      ex_quest = [(''title'', QStr ''the hunt'')]\<rparr>"




text \<open>An example whose kb has two relations and whose plot names no node.\<close>

definition sampling_example :: example where
  "sampling_example =
     \<lparr>ex_game = ''G'', ex_plots = [''A quiet night.''],
      ex_kbs = [\<lparr>kb_name = ''Delilah'', kb_description = ''a witch'', kb_type = ''character'',
                 kb_relations = [(''present in'', ''Manor''), (''held by'', ''Ring'')]\<rparr>],
      ex_quest = [(''title'', QStr ''the hunt'')]\<rparr>"

text \<open>A directed chain of four nodes, and an example whose plot names the first.\<close>

definition chain_graph :: kg where
  "chain_graph =
     \<lparr>kg_nodes =
        [(''Aaa'', [(''type'', ''location''), (''description'', ''Aaa'')]),
         (''Bbb'', [(''type'', ''location''), (''description'', ''Bbb'')]),
         (''Ccc'', [(''type'', ''location''), (''description'', ''Ccc'')]),
         (''Ddd'', [(''type'', ''location''), (''description'', ''Ddd'')])],
      kg_adj =
        [(''Aaa'', [(''Bbb'', [(''label'', ''connected to'')])]),
         (''Bbb'', [(''Ccc'', [(''label'', ''connected to'')])]),
         (''Ccc'', [(''Ddd'', [(''label'', ''connected to'')])]),
         (''Ddd'', [])]\<rparr>"

definition chain_example :: example where
  "chain_example =
     \<lparr>ex_game = ''G'', ex_plots = [''Start at Aaa.''], ex_kbs = [],
      ex_quest = [(''title'', QStr ''the walk'')]\<rparr>"

section \<open>Quest rendering: the loop against the specification\<close>

lemma capitalize_tasks: "capitalize ''tasks'' = ''Tasks''"
  by (simp add: upper_char_def lower_char_def)

lemma join_prefix: "xs \<noteq> [] \<Longrightarrow> sep @ join sep xs = concat (map (\<lambda>t. sep @ t) xs)"
  by (induction sep xs rule: join.induct) auto

lemma tasks_value_two:
  assumes "2 \<le> length ts"
  shows "tasks_value (QList ts) = Inr (concat (map (\<lambda>t. nl @ '' '' @ capitalize t) (butlast ts)))"
proof -
  from assms have "butlast ts \<noteq> []"
    by (cases ts) (auto split: if_splits)
  then have ne: "map capitalize (butlast ts) \<noteq> []"
    by simp
  have "(nl @ '' '') @ join (nl @ '' '') (map capitalize (butlast ts))
      = concat (map (\<lambda>t. (nl @ '' '') @ t) (map capitalize (butlast ts)))"
    using join_prefix [OF ne] by blast
  with ne show ?thesis
    by (simp add: np_char_capitalize_def comp_def)
qed

lemma quest_loop_spec:
  "list_all field_ok q \<Longrightarrow> quest_loop q acc = Inr (acc @ concat (map render_field_spec q))"
proof (induction q arbitrary: acc)
  case Nil
  then show ?case by simp
next
  case (Cons kv q)
  obtain k v where kv: "kv = (k, v)"
    by (cases kv)
  show ?case
  proof (cases v)
    case (QStr s)
    with Cons kv show ?thesis by auto
  next
    case (QList ts)
    with Cons kv tasks_value_two [of ts] show ?thesis
      by (auto simp: capitalize_tasks simp del: capitalize.simps)
  qed
qed

text \<open>
  C8. The rendering loop skips the field \<open>description\<close>, writes every other
  field as \<open>Name: Value\<close> and a newline in the order of the dictionary, and for
  the field \<open>tasks\<close> writes the line \<open>Tasks: \<close> and every task but the last,
  capitalised, each on its own line indented by one blank: on a quest whose
  \<open>tasks\<close> field holds at least two tasks (and whose other fields hold strings)
  it returns the text the specification describes. On a \<open>tasks\<close> field of one
  task, or of none, the specification's text is the line \<open>Tasks: \<close> without
  tasks, and the loop raises a TypeError instead.
\<close>

theorem quest_rendering_follows_spec:
  "(quest_ok q \<longrightarrow> quest_str q = Inr (quest_str_spec q)) \<and>
   quest_str [(''objective'', QStr ''slay the beast''), (''tasks'', QList [''return to the inn''])]
     = Inl TypeError \<and>
   quest_str_spec
     [(''objective'', QStr ''slay the beast''), (''tasks'', QList [''return to the inn''])]
     = ''Objective: Slay the beast\<newline>Tasks: \<newline>'' \<and>
   quest_str [(''objective'', QStr ''slay the beast''), (''tasks'', QList [])] = Inl TypeError \<and>
   quest_str_spec [(''objective'', QStr ''slay the beast''), (''tasks'', QList [])]
     = ''Objective: Slay the beast\<newline>Tasks: \<newline>''"
proof (intro conjI impI)
  assume "quest_ok q"
  then show "quest_str q = Inr (quest_str_spec q)"
    by (simp add: quest_ok_def quest_str_def quest_str_spec_def quest_loop_spec)
qed (simp_all add: quest_str_def quest_str_spec_def np_char_capitalize_def
       upper_char_def lower_char_def)

theorem quest_rendering_follows_spec_witness:
  "quest_ok [(''title'', QStr ''the hunt''), (''description'', QStr ''a long tale''),
             (''tasks'', QList [''find x'', ''kill y'', ''report''])] \<and>
   quest_str [(''title'', QStr ''the hunt''), (''description'', QStr ''a long tale''),
              (''tasks'', QList [''find x'', ''kill y'', ''report''])]
   = Inr ''Title: The hunt\<newline>Tasks: \<newline> Find x\<newline> Kill y\<newline>''"
proof -
  have ok: "quest_ok [(''title'', QStr ''the hunt''), (''description'', QStr ''a long tale''),
                      (''tasks'', QList [''find x'', ''kill y'', ''report''])]"
    by (simp add: quest_ok_def)
  show ?thesis
    using ok quest_rendering_follows_spec [THEN conjunct1, rule_format, OF ok]
    by (simp add: quest_str_spec_def upper_char_def lower_char_def)
qed

text \<open>
  C10. A \<open>tasks\<close> field with exactly one task: the slice \<^verbatim>\<open>v[:-1]\<close> is
  empty, \<^verbatim>\<open>np.char.capitalize\<close> raises on it, and both prompt builders fail with
  a TypeError instead of rendering a \<open>Tasks: \<close> line without tasks.
\<close>

theorem single_task_raises:
  "quest_str [(''title'', QStr ''the hunt''), (''tasks'', QList [''find x''])] = Inl TypeError \<and>
   create_training_prompt_formats ''no_kg'' kg_map
     \<lparr>ex_game = ''TESO'', ex_plots = [''A plot.''], ex_kbs = [],
      ex_quest = [(''title'', QStr ''the hunt''), (''tasks'', QList [''find x''])]\<rparr>
   = Inl TypeError \<and>
   create_generation_prompt_formats ''no_kg'' KG_DEPTH kg_map
     \<lparr>ex_game = ''TESO'', ex_plots = [''A plot.''], ex_kbs = [],
      ex_quest = [(''title'', QStr ''the hunt''), (''tasks'', QList [''find x''])]\<rparr> g
   = Inl TypeError"
  by (simp add: quest_str_def np_char_capitalize_def create_training_prompt_formats_def
      create_generation_prompt_formats_def)

section \<open>The edge loop of Phase B\<close>

lemma edge_step_skip:
  "(ent1, ent2) \<in> set (completed_rels st) \<or> (ent2, ent1) \<in> set (completed_rels st) \<Longrightarrow>
   edge_step training g (ent1, ent2) st = Inr st"
  by (simp add: edge_step_def)

lemma edge_step_run:
  assumes "(ent1, ent2) \<notin> set (completed_rels st)" and "(ent2, ent1) \<notin> set (completed_rels st)"
    and "node_attr g ent1 ''type'' = Inr e1_type"
    and "node_attr g ent1 ''description'' = Inr e1_desc"
    and "node_attr g ent2 ''type'' = Inr e2_type"
    and "node_attr g ent2 ''description'' = Inr e2_desc"
    and "edge_label g ent1 ent2 = Inr rel"
  shows "edge_step training g (ent1, ent2) st =
     Inr ((introduce ent2 (if training then ent1 else ent2) e2_type e2_desc
            (introduce ent1 ent1 e1_type e1_desc st))
          \<lparr>background :=
             background (introduce ent2 (if training then ent1 else ent2) e2_type e2_desc
               (introduce ent1 ent1 e1_type e1_desc st))
             @ relation_sentence rel e1_type ent1 ent2 @ nl,
           completed_rels := completed_rels st @ [(ent1, ent2)]\<rparr>)"
  using assms by (simp add: edge_step_def Let_def introduce_def)

lemma relation_sentence_cases:
  "relation_sentence rel e1_type ent1 ent2 =
     (if rel = ''connected to'' then ent1 @ '' is connected to '' @ ent2 @ ''. ''
      else if rel = ''present in'' then
        (if e1_type = ''location'' then ent2 @ '' is present in '' @ ent2 @ ''. ''
         else ent1 @ '' is present in '' @ ent2 @ ''. '')
      else if rel = ''held by'' then
        (if e1_type = ''character'' then ent2 @ '' is held by '' @ ent1 @ ''. ''
         else ent1 @ '' is held by '' @ ent2 @ ''. '')
      else [])"
  by (simp add: relation_sentence_def)

text \<open>
  C2. An edge that is not skipped and whose attributes are present is processed
  in both notebooks as follows: after the introductions of its two ends, the text
  grows by the relation sentence that the label selects (\<open>connected to\<close>;
  \<open>present in\<close> with the target named twice when the source is a location;
  \<open>held by\<close> with the ends exchanged when the source is a character; nothing for
  any other label) and then by a newline, whatever the label, and the edge is
  recorded in \<open>completed_rels\<close>.
\<close>

theorem relation_sentence_by_label:
  assumes "(ent1, ent2) \<notin> set (completed_rels st)" and "(ent2, ent1) \<notin> set (completed_rels st)"
    and "node_attr g ent1 ''type'' = Inr e1_type"
    and "node_attr g ent1 ''description'' = Inr e1_desc"
    and "node_attr g ent2 ''type'' = Inr e2_type"
    and "node_attr g ent2 ''description'' = Inr e2_desc"
    and "edge_label g ent1 ent2 = Inr rel"
  shows "\<exists>st'. edge_step training g (ent1, ent2) st = Inr st' \<and>
     background st' =
       background (introduce ent2 (if training then ent1 else ent2) e2_type e2_desc
                    (introduce ent1 ent1 e1_type e1_desc st))
       @ (if rel = ''connected to'' then ent1 @ '' is connected to '' @ ent2 @ ''. ''
          else if rel = ''present in'' then
            (if e1_type = ''location'' then ent2 @ '' is present in '' @ ent2 @ ''. ''
             else ent1 @ '' is present in '' @ ent2 @ ''. '')
          else if rel = ''held by'' then
            (if e1_type = ''character'' then ent2 @ '' is held by '' @ ent1 @ ''. ''
             else ent1 @ '' is held by '' @ ent2 @ ''. '')
          else [])
       @ nl \<and>
     completed_rels st' = completed_rels st @ [(ent1, ent2)]"
  unfolding edge_step_run [OF assms] relation_sentence_cases [symmetric]
  by simp

theorem relation_sentence_by_label_witness:
  "\<exists>st'. edge_step False
     \<lparr>kg_nodes = [(''Cave'', [(''type'', ''location''), (''description'', ''a dark cave'')]),
                  (''Ring'', [(''type'', ''object''), (''description'', ''Ring'')])],
      kg_adj = [(''Cave'', [(''Ring'', [(''label'', ''present in'')])]), (''Ring'', [])]\<rparr>
     (''Cave'', ''Ring'')
     \<lparr>background = [], completed_rels = [], completed_nodes = [''Cave'', ''Ring'']\<rparr> = Inr st' \<and>
     background st' = ''Ring is present in Ring. \<newline>'' \<and>
     completed_rels st' = [(''Cave'', ''Ring'')]"
  using relation_sentence_by_label [of "''Cave''" "''Ring''"
      "\<lparr>background = [], completed_rels = [], completed_nodes = [''Cave'', ''Ring'']\<rparr>"
      "\<lparr>kg_nodes = [(''Cave'', [(''type'', ''location''), (''description'', ''a dark cave'')]),
                   (''Ring'', [(''type'', ''object''), (''description'', ''Ring'')])],
        kg_adj = [(''Cave'', [(''Ring'', [(''label'', ''present in'')])]), (''Ring'', [])]\<rparr>"
      "''location''" "''a dark cave''" "''object''" "''Ring''" "''present in''" False]
  by (simp add: node_attr_def edge_label_def introduce_def)

lemma edge_step_gen_introduces_target:
  assumes "(ent1, ent2) \<notin> set (completed_rels st)" and "(ent2, ent1) \<notin> set (completed_rels st)"
    and "node_attr g ent1 ''type'' = Inr e1_type"
    and "node_attr g ent1 ''description'' = Inr e1_desc"
    and "node_attr g ent2 ''type'' = Inr e2_type"
    and "node_attr g ent2 ''description'' = Inr e2_desc"
    and "edge_label g ent1 ent2 = Inr rel"
    and "ent2 \<notin> set (completed_nodes (introduce ent1 ent1 e1_type e1_desc st))"
  shows "\<exists>st'. edge_step_gen g (ent1, ent2) st = Inr st' \<and>
     background st' =
       background (introduce ent1 ent1 e1_type e1_desc st)
       @ ent2 @ '' is a '' @ e2_type @ ''. ''
       @ (if e2_desc \<noteq> ent2 then ent2 @ '' is '' @ e2_desc @ ''. '' else []) @ nl
       @ relation_sentence rel e1_type ent1 ent2 @ nl \<and>
     completed_nodes st' = completed_nodes (introduce ent1 ent1 e1_type e1_desc st) @ [ent2]"
  unfolding edge_step_gen_def edge_step_run [OF assms(1-7)]
  using assms(8) by (simp add: introduce_def [of ent2])

text \<open>
  C1. The training notebook writes the first sentence of the target's introduction
  with the name of the source: for the edge from Delilah (a character) to Manor (a
  location) it emits \<open>Delilah is a location. \<close>, where the generation notebook, on
  the same input, emits \<open>Manor is a location. \<close>.
\<close>

theorem training_introduces_target_under_source_name:
  "map_sum id background (text_kg_train
     [''G'' \<mapsto>
        \<lparr>kg_nodes = [(''Delilah'', [(''type'', ''character''), (''description'', ''the leader'')]),
                     (''Manor'', [(''type'', ''location''), (''description'', ''a lair'')])],
         kg_adj = [(''Delilah'', [(''Manor'', [(''label'', ''present in'')])]), (''Manor'', [])]\<rparr>]
     \<lparr>ex_game = ''G'', ex_plots = [''Find Delilah.''], ex_kbs = [], ex_quest = []\<rparr>)
   = Inr ''Delilah is a character. Delilah is the leader. \<newline>Delilah is a location. Manor is a lair. \<newline>Delilah is present in Manor. \<newline>'' \<and>
   map_sum id background (text_kg_gen 2
     [''G'' \<mapsto>
        \<lparr>kg_nodes = [(''Delilah'', [(''type'', ''character''), (''description'', ''the leader'')]),
                     (''Manor'', [(''type'', ''location''), (''description'', ''a lair'')])],
         kg_adj = [(''Delilah'', [(''Manor'', [(''label'', ''present in'')])]), (''Manor'', [])]\<rparr>]
     \<lparr>ex_game = ''G'', ex_plots = [''Find Delilah.''], ex_kbs = [], ex_quest = []\<rparr> g)
   = Inr ''Delilah is a character. Delilah is the leader. \<newline>Manor is a location. Manor is a lair. \<newline>Delilah is present in Manor. \<newline>''"
  by code_simp

section \<open>Sampling without replacement\<close>

lemma sample_loop_Suc:
  "sample_loop pool live (Suc k) g =
     (pool ! (g 0 mod live) #
        fst (sample_loop (pool[g 0 mod live := pool ! (live - 1)]) (live - 1) k (\<lambda>i. g (Suc i))),
      snd (sample_loop (pool[g 0 mod live := pool ! (live - 1)]) (live - 1) k (\<lambda>i. g (Suc i))))"
  by (simp add: randbelow_def case_prod_beta)

lemma length_sample_loop: "length (fst (sample_loop pool live k g)) = k"
proof (induction k arbitrary: pool live g)
  case 0
  show ?case by simp
next
  case (Suc k)
  show ?case
    unfolding sample_loop_Suc by (simp add: Suc.IH)
qed

lemma pool_step_mset:
  assumes "live \<le> length pool" and "j < live"
  shows "add_mset (pool ! j) (mset (take (live - 1) (pool[j := pool ! (live - 1)]))) =
         mset (take live pool)"
proof -
  from assms obtain m where live: "live = Suc m"
    by (cases live) auto
  with assms have m: "m < length pool" and jm: "j \<le> m"
    by auto
  have split: "mset (take (Suc m) pool) = add_mset (pool ! m) (mset (take m pool))"
    using m by (simp add: take_Suc_conv_app_nth)
  show ?thesis
  proof (cases "j = m")
    case True
    then show ?thesis
      using split live by simp
  next
    case False
    with jm have lt: "j < m"
      by simp
    then have j_len: "j < length (take m pool)"
      using m by simp
    have "mset (take m (pool[j := pool ! m])) = mset ((take m pool)[j := pool ! m])"
      by (simp add: take_update_swap)
    also have "\<dots> = add_mset (pool ! m) (mset (take m pool) - {#take m pool ! j#})"
      using j_len by (rule mset_update)
    finally have "add_mset (pool ! j) (mset (take m (pool[j := pool ! m]))) =
        add_mset (pool ! m) (add_mset (pool ! j) (mset (take m pool) - {#pool ! j#}))"
      using lt by simp
    moreover have "pool ! j \<in># mset (take m pool)"
      using j_len lt by (metis nth_mem_mset nth_take)
    ultimately show ?thesis
      using split live by simp
  qed
qed

lemma sample_loop_mset:
  "k \<le> live \<Longrightarrow> live \<le> length pool \<Longrightarrow>
   mset (fst (sample_loop pool live k g)) \<subseteq># mset (take live pool)"
proof (induction k arbitrary: pool live g)
  case 0
  then show ?case by simp
next
  case (Suc k)
  define j where "j = g 0 mod live"
  define pool' where "pool' = pool[j := pool ! (live - 1)]"
  from Suc.prems have pos: "0 < live"
    by simp
  then have j: "j < live"
    by (simp add: j_def)
  have "mset (fst (sample_loop pool' (live - 1) k (\<lambda>i. g (Suc i)))) \<subseteq>#
        mset (take (live - 1) pool')"
    using Suc.prems by (intro Suc.IH) (simp_all add: pool'_def)
  then have "add_mset (pool ! j) (mset (fst (sample_loop pool' (live - 1) k (\<lambda>i. g (Suc i)))))
       \<subseteq># add_mset (pool ! j) (mset (take (live - 1) pool'))"
    by simp
  also have "\<dots> = mset (take live pool)"
    unfolding pool'_def using Suc.prems(2) j by (rule pool_step_mset)
  finally show ?case
    unfolding sample_loop_Suc by (simp add: j_def pool'_def)
qed

lemma random_sample_ok:
  assumes "0 \<le> k" and "k \<le> int (length xs)"
  shows "\<exists>rs g'. random_sample xs k g = Inr (rs, g') \<and> length rs = nat k \<and> mset rs \<subseteq># mset xs"
proof -
  obtain rs g' where out: "sample_loop xs (length xs) (nat k) g = (rs, g')"
    by (cases "sample_loop xs (length xs) (nat k) g")
  have "length (fst (sample_loop xs (length xs) (nat k) g)) = nat k"
    by (rule length_sample_loop)
  moreover have "mset (fst (sample_loop xs (length xs) (nat k) g)) \<subseteq># mset (take (length xs) xs)"
    using assms by (intro sample_loop_mset) simp_all
  ultimately show ?thesis
    using assms out by (simp add: random_sample_def)
qed

lemma choose_relations_positive:
  assumes "0 < KG_DEPTH"
  shows "\<exists>rs g'. choose_relations KG_DEPTH rels g = Inr (rs, g') \<and>
           length rs = min (nat (KG_DEPTH - 1)) (length rels) \<and> mset rs \<subseteq># mset rels"
proof (cases "int (length rels) < KG_DEPTH - 1")
  case True
  then have "min (nat (KG_DEPTH - 1)) (length rels) = length rels"
    by linarith
  with True show ?thesis
    using random_sample_ok [of "int (length rels)" rels g]
    by (simp add: choose_relations_def assms Let_def)
next
  case False
  then have "min (nat (KG_DEPTH - 1)) (length rels) = nat (KG_DEPTH - 1)"
    by linarith
  with False show ?thesis
    using assms random_sample_ok [of "KG_DEPTH - 1" rels g]
    by (simp add: choose_relations_def Let_def)
qed

lemma relations_loop_background:
  "background (relations_loop stop entity rels st) =
     background st @ concat (map (\<lambda>rel. entity @ '' is '' @ fst rel @ '' '' @ snd rel @ stop) rels)"
  by (induction rels arbitrary: st) simp_all

lemma relations_loop_rels:
  "completed_rels (relations_loop stop entity rels st) =
     completed_rels st @ map (\<lambda>rel. (entity, snd rel)) rels"
  by (induction rels arbitrary: st) simp_all

lemma relations_loop_nodes:
  "completed_nodes (relations_loop stop entity rels st) = completed_nodes st"
  by (induction rels arbitrary: st) simp_all

lemma kb_step_gen_chosen:
  assumes "choose_relations KG_DEPTH (kb_relations kb) g = Inr (rs, g')"
  shows "\<exists>st'. kb_step_gen KG_DEPTH kb (st, g) = Inr (st', g') \<and>
     background st' =
       background st @ kb_name kb @ '' is a '' @ kb_type kb @ ''. ''
       @ (if 0 < KG_DEPTH \<and> kb_name kb \<noteq> kb_description kb
          then kb_name kb @ '' is '' @ kb_description kb @ ''. '' else [])
       @ concat (map (\<lambda>rel. kb_name kb @ '' is '' @ fst rel @ '' '' @ snd rel @ ''. '') rs)
       @ nl \<and>
     completed_rels st' = completed_rels st @ map (\<lambda>rel. (kb_name kb, snd rel)) rs \<and>
     completed_nodes st' = completed_nodes st @ [kb_name kb]"
  using assms
  by (simp add: kb_step_gen_def Let_def relations_loop_background relations_loop_rels
      relations_loop_nodes)

lemma kb_step_train_all_relations:
  "background (kb_step_train kb st) =
     background st @ kb_name kb @ '' is a '' @ kb_type kb @ ''. ''
     @ (if kb_name kb \<noteq> kb_description kb
        then kb_name kb @ '' is '' @ kb_description kb @ ''. '' else [])
     @ concat (map (\<lambda>rel. kb_name kb @ '' is '' @ fst rel @ '' '' @ snd rel @ ''.'')
                (kb_relations kb))
     @ nl \<and>
   completed_rels (kb_step_train kb st) =
     completed_rels st @ map (\<lambda>rel. (kb_name kb, snd rel)) (kb_relations kb) \<and>
   completed_nodes (kb_step_train kb st) = completed_nodes st @ [kb_name kb]"
  by (simp add: kb_step_train_def Let_def relations_loop_background relations_loop_rels
      relations_loop_nodes)

text \<open>
  C3, as the code has it. In the generation notebook the relations emitted for a
  kb are the list \<open>rs\<close> chosen by \<open>choose_relations\<close>: one sentence and one entry
  of \<open>completed_rels\<close> for each of its elements, in order. For a positive depth
  \<open>rs\<close> is a sample of the kb's relations without replacement (each position of
  the relation list is used at most once) of size \<open>min (depth - 1) (length of the
  relations)\<close>; for a depth of zero or less it is the relation list itself. The
  training notebook reads no depth: it emits and records every relation of the
  kb, in order.
\<close>

theorem phase_a_relations_sampled:
  "(\<exists>rs g' st'.
     choose_relations KG_DEPTH (kb_relations kb) g = Inr (rs, g') \<and>
     kb_step_gen KG_DEPTH kb (st, g) = Inr (st', g') \<and>
     background st' =
       background st @ kb_name kb @ '' is a '' @ kb_type kb @ ''. ''
       @ (if 0 < KG_DEPTH \<and> kb_name kb \<noteq> kb_description kb
          then kb_name kb @ '' is '' @ kb_description kb @ ''. '' else [])
       @ concat (map (\<lambda>rel. kb_name kb @ '' is '' @ fst rel @ '' '' @ snd rel @ ''. '') rs)
       @ nl \<and>
     completed_rels st' = completed_rels st @ map (\<lambda>rel. (kb_name kb, snd rel)) rs \<and>
     (0 < KG_DEPTH \<longrightarrow>
        length rs = min (nat (KG_DEPTH - 1)) (length (kb_relations kb)) \<and>
        mset rs \<subseteq># mset (kb_relations kb)) \<and>
     (KG_DEPTH \<le> 0 \<longrightarrow> rs = kb_relations kb \<and> g' = g)) \<and>
   background (kb_step_train kb st) =
     background st @ kb_name kb @ '' is a '' @ kb_type kb @ ''. ''
     @ (if kb_name kb \<noteq> kb_description kb
        then kb_name kb @ '' is '' @ kb_description kb @ ''. '' else [])
     @ concat (map (\<lambda>rel. kb_name kb @ '' is '' @ fst rel @ '' '' @ snd rel @ ''.'')
                (kb_relations kb))
     @ nl \<and>
   completed_rels (kb_step_train kb st) =
     completed_rels st @ map (\<lambda>rel. (kb_name kb, snd rel)) (kb_relations kb)"
proof (intro conjI)
  show "\<exists>rs g' st'.
     choose_relations KG_DEPTH (kb_relations kb) g = Inr (rs, g') \<and>
     kb_step_gen KG_DEPTH kb (st, g) = Inr (st', g') \<and>
     background st' =
       background st @ kb_name kb @ '' is a '' @ kb_type kb @ ''. ''
       @ (if 0 < KG_DEPTH \<and> kb_name kb \<noteq> kb_description kb
          then kb_name kb @ '' is '' @ kb_description kb @ ''. '' else [])
       @ concat (map (\<lambda>rel. kb_name kb @ '' is '' @ fst rel @ '' '' @ snd rel @ ''. '') rs)
       @ nl \<and>
     completed_rels st' = completed_rels st @ map (\<lambda>rel. (kb_name kb, snd rel)) rs \<and>
     (0 < KG_DEPTH \<longrightarrow>
        length rs = min (nat (KG_DEPTH - 1)) (length (kb_relations kb)) \<and>
        mset rs \<subseteq># mset (kb_relations kb)) \<and>
     (KG_DEPTH \<le> 0 \<longrightarrow> rs = kb_relations kb \<and> g' = g)"
  proof (cases "0 < KG_DEPTH")
    case True
    then obtain rs g' where ch: "choose_relations KG_DEPTH (kb_relations kb) g = Inr (rs, g')"
      and len: "length rs = min (nat (KG_DEPTH - 1)) (length (kb_relations kb))"
      and sub: "mset rs \<subseteq># mset (kb_relations kb)"
      using choose_relations_positive by blast
    from kb_step_gen_chosen [OF ch, of st] ch len sub True show ?thesis
      by auto
  next
    case False
    then have ch: "choose_relations KG_DEPTH (kb_relations kb) g = Inr (kb_relations kb, g)"
      by (simp add: choose_relations_def)
    from kb_step_gen_chosen [OF ch, of st] ch False show ?thesis
      by auto
  qed
qed (simp_all add: kb_step_train_all_relations)

theorem phase_a_relations_sampled_witness:
  "(\<exists>rs g' st'.
      kb_step_gen 2 \<lparr>kb_name = ''Delilah'', kb_description = ''a witch'', kb_type = ''character'',
                      kb_relations = [(''present in'', ''Manor''), (''held by'', ''Ring'')]\<rparr>
        (init_state, \<lambda>i. i) = Inr (st', g') \<and>
      completed_rels st' = map (\<lambda>rel. (''Delilah'', snd rel)) rs \<and> length rs = 1 \<and>
      mset rs \<subseteq># mset [(''present in'', ''Manor''), (''held by'', ''Ring'')]) \<and>
   (\<exists>st'.
      kb_step_gen 0 \<lparr>kb_name = ''Delilah'', kb_description = ''a witch'', kb_type = ''character'',
                      kb_relations = [(''present in'', ''Manor''), (''held by'', ''Ring'')]\<rparr>
        (init_state, \<lambda>i. i) = Inr (st', \<lambda>i. i) \<and>
      background st' =
        ''Delilah is a character. Delilah is present in Manor. Delilah is held by Ring. \<newline>'' \<and>
      completed_rels st' = [(''Delilah'', ''Manor''), (''Delilah'', ''Ring'')]) \<and>
   completed_rels
     (kb_step_train \<lparr>kb_name = ''Delilah'', kb_description = ''a witch'', kb_type = ''character'',
                     kb_relations = [(''present in'', ''Manor''), (''held by'', ''Ring'')]\<rparr>
        init_state) = [(''Delilah'', ''Manor''), (''Delilah'', ''Ring'')]"
proof (intro conjI)
  obtain rs g' st' where
    "kb_step_gen 2 \<lparr>kb_name = ''Delilah'', kb_description = ''a witch'', kb_type = ''character'',
                    kb_relations = [(''present in'', ''Manor''), (''held by'', ''Ring'')]\<rparr>
       (init_state, \<lambda>i. i) = Inr (st', g')"
    and "completed_rels st' = completed_rels init_state @ map (\<lambda>rel. (''Delilah'', snd rel)) rs"
    and "(0::int) < 2 \<longrightarrow> length rs = min (nat (2 - 1)) 2
           \<and> mset rs \<subseteq># mset [(''present in'', ''Manor''), (''held by'', ''Ring'')]"
    using phase_a_relations_sampled [THEN conjunct1, of 2
        "\<lparr>kb_name = ''Delilah'', kb_description = ''a witch'', kb_type = ''character'',
          kb_relations = [(''present in'', ''Manor''), (''held by'', ''Ring'')]\<rparr>"
        "\<lambda>i. i" init_state]
    by auto
  then show "\<exists>rs g' st'.
      kb_step_gen 2 \<lparr>kb_name = ''Delilah'', kb_description = ''a witch'', kb_type = ''character'',
                      kb_relations = [(''present in'', ''Manor''), (''held by'', ''Ring'')]\<rparr>
        (init_state, \<lambda>i. i) = Inr (st', g') \<and>
      completed_rels st' = map (\<lambda>rel. (''Delilah'', snd rel)) rs \<and> length rs = 1 \<and>
      mset rs \<subseteq># mset [(''present in'', ''Manor''), (''held by'', ''Ring'')]"
    by (auto simp: init_state_def)
next
  show "\<exists>st'.
      kb_step_gen 0 \<lparr>kb_name = ''Delilah'', kb_description = ''a witch'', kb_type = ''character'',
                      kb_relations = [(''present in'', ''Manor''), (''held by'', ''Ring'')]\<rparr>
        (init_state, \<lambda>i. i) = Inr (st', \<lambda>i. i) \<and>
      background st' =
        ''Delilah is a character. Delilah is present in Manor. Delilah is held by Ring. \<newline>'' \<and>
      completed_rels st' = [(''Delilah'', ''Manor''), (''Delilah'', ''Ring'')]"
    using phase_a_relations_sampled [THEN conjunct1, of 0
        "\<lparr>kb_name = ''Delilah'', kb_description = ''a witch'', kb_type = ''character'',
          kb_relations = [(''present in'', ''Manor''), (''held by'', ''Ring'')]\<rparr>"
        "\<lambda>i. i" init_state]
    by (auto simp: init_state_def)
next
  show "completed_rels
     (kb_step_train \<lparr>kb_name = ''Delilah'', kb_description = ''a witch'', kb_type = ''character'',
                     kb_relations = [(''present in'', ''Manor''), (''held by'', ''Ring'')]\<rparr>
        init_state) = [(''Delilah'', ''Manor''), (''Delilah'', ''Ring'')]"
    using phase_a_relations_sampled [THEN conjunct2, THEN conjunct2, of
        "\<lparr>kb_name = ''Delilah'', kb_description = ''a witch'', kb_type = ''character'',
          kb_relations = [(''present in'', ''Manor''), (''held by'', ''Ring'')]\<rparr>" init_state]
    by (simp add: init_state_def)
qed

theorem training_emits_all_relations_counterexample:
  "text_kg_train [''G'' \<mapsto> manor_graph] sampling_example =
     Inr \<lparr>background = ''Delilah is a character. Delilah is a witch. Delilah is present in Manor.Delilah is held by Ring.\<newline>'',
          completed_rels = [(''Delilah'', ''Manor''), (''Delilah'', ''Ring'')],
          completed_nodes = [''Delilah'']\<rparr> \<and>
   map (\<lambda>kb. min (nat (2 - 1)) (length (kb_relations kb))) (ex_kbs sampling_example) = [1]"
  by code_simp

section \<open>Phase A never raises\<close>

lemma choose_relations_total:
  "\<exists>rs g'. choose_relations KG_DEPTH rels g = Inr (rs, g')"
proof (cases "0 < KG_DEPTH")
  case True
  then show ?thesis
    using choose_relations_positive by blast
next
  case False
  then show ?thesis
    by (simp add: choose_relations_def)
qed

lemma kb_step_gen_total:
  "\<exists>st' g'. kb_step_gen KG_DEPTH kb (st, g) = Inr (st', g')"
proof -
  obtain rs g' where "choose_relations KG_DEPTH (kb_relations kb) g = Inr (rs, g')"
    using choose_relations_total by blast
  from kb_step_gen_chosen [OF this] show ?thesis
    by blast
qed

lemma for_each_kb_step_gen_total:
  "\<exists>st' g'. for_each (kb_step_gen KG_DEPTH) kbs (st, g) = Inr (st', g')"
proof (induction kbs arbitrary: st g)
  case Nil
  show ?case by simp
next
  case (Cons kb kbs)
  obtain st1 g1 where "kb_step_gen KG_DEPTH kb (st, g) = Inr (st1, g1)"
    using kb_step_gen_total by blast
  with Cons.IH [of st1 g1] show ?case
    by simp
qed

lemma phase_a_gen_total: "\<exists>st g'. phase_a_gen KG_DEPTH kbs g = Inr (st, g')"
  unfolding phase_a_gen_def by (rule for_each_kb_step_gen_total)

lemma kb_step_gen_nonpositive:
  assumes "KG_DEPTH \<le> 0"
  shows "kb_step_gen KG_DEPTH kb (st, g) =
     Inr (\<lparr>background = background st @ kb_block_all kb,
           completed_rels = completed_rels st @ map (\<lambda>rel. (kb_name kb, snd rel)) (kb_relations kb),
           completed_nodes = completed_nodes st @ [kb_name kb]\<rparr>, g)"
  using assms
  by (simp add: kb_step_gen_def choose_relations_def Let_def kb_block_all_def
      relations_loop_background relations_loop_rels relations_loop_nodes)

lemma for_each_kb_step_gen_nonpositive:
  assumes "KG_DEPTH \<le> 0"
  shows "for_each (kb_step_gen KG_DEPTH) kbs (st, g) =
     Inr (\<lparr>background = background st @ concat (map kb_block_all kbs),
           completed_rels = completed_rels st @
             concat (map (\<lambda>kb. map (\<lambda>rel. (kb_name kb, snd rel)) (kb_relations kb)) kbs),
           completed_nodes = completed_nodes st @ map kb_name kbs\<rparr>, g)"
proof (induction kbs arbitrary: st)
  case Nil
  show ?case by simp
next
  case (Cons kb kbs)
  show ?case
    by (simp add: kb_step_gen_nonpositive [OF assms] Cons.IH)
qed

lemma phase_a_gen_nonpositive:
  "KG_DEPTH \<le> 0 \<Longrightarrow> phase_a_gen KG_DEPTH kbs g = Inr (phase_a_all kbs, g)"
  by (simp add: phase_a_gen_def for_each_kb_step_gen_nonpositive init_state_def phase_a_all_def)

lemma text_kg_gen_nonpositive:
  "KG_DEPTH \<le> 0 \<Longrightarrow> text_kg_gen KG_DEPTH kg_map input g = Inr (phase_a_all (ex_kbs input))"
  by (simp add: text_kg_gen_def phase_a_gen_nonpositive)

section \<open>A game without a graph\<close>

lemma text_kg_train_missing:
  "kg_map (ex_game input) = None \<Longrightarrow> text_kg_train kg_map input = Inl KeyError"
  by (simp add: text_kg_train_def Let_def)

lemma text_kg_gen_missing:
  assumes "kg_map (ex_game input) = None" and "0 < KG_DEPTH"
  shows "text_kg_gen KG_DEPTH kg_map input g = Inl KeyError"
proof -
  obtain st g' where "phase_a_gen KG_DEPTH (ex_kbs input) g = Inr (st, g')"
    using phase_a_gen_total by blast
  with assms show ?thesis
    by (simp add: text_kg_gen_def)
qed

text \<open>
  C9, as the code has it. When the registry has no graph for the example's game,
  the training builder in \<open>text_kg\<close> mode raises a KeyError, and so does the
  generation builder for every positive depth. For a depth of zero or less the
  generation builder never consults the registry: the composition of the
  background succeeds, from the kbs alone.
\<close>

theorem missing_graph_raises:
  assumes "kg_map (ex_game input) = None"
  shows "create_training_prompt_formats ''text_kg'' kg_map input = Inl KeyError \<and>
         (0 < KG_DEPTH \<longrightarrow>
            create_generation_prompt_formats ''text_kg'' KG_DEPTH kg_map input g = Inl KeyError) \<and>
         (KG_DEPTH \<le> 0 \<longrightarrow>
            text_kg_gen KG_DEPTH kg_map input g = Inr (phase_a_all (ex_kbs input)))"
  using assms
  by (simp add: create_training_prompt_formats_def create_generation_prompt_formats_def
      text_kg_train_missing text_kg_gen_missing text_kg_gen_nonpositive)

theorem missing_graph_raises_witness:
  "create_training_prompt_formats ''text_kg'' Map.empty
     \<lparr>ex_game = ''TESO'', ex_plots = [''A plot.''], ex_kbs = [], ex_quest = []\<rparr> = Inl KeyError \<and>
   create_generation_prompt_formats ''text_kg'' 2 Map.empty
     \<lparr>ex_game = ''TESO'', ex_plots = [''A plot.''], ex_kbs = [], ex_quest = []\<rparr> (\<lambda>i. i)
     = Inl KeyError \<and>
   text_kg_gen 0 Map.empty
     \<lparr>ex_game = ''TESO'', ex_plots = [''A plot.''], ex_kbs = [], ex_quest = []\<rparr> (\<lambda>i. i)
     = Inr \<lparr>background = [], completed_rels = [], completed_nodes = []\<rparr>"
  using missing_graph_raises [of Map.empty
      "\<lparr>ex_game = ''TESO'', ex_plots = [''A plot.''], ex_kbs = [], ex_quest = []\<rparr>" 2 "\<lambda>i. i"]
    missing_graph_raises [of Map.empty
      "\<lparr>ex_game = ''TESO'', ex_plots = [''A plot.''], ex_kbs = [], ex_quest = []\<rparr>" 0 "\<lambda>i. i"]
  by (simp add: phase_a_all_def)

theorem missing_graph_depth_zero_counterexample:
  "create_generation_prompt_formats ''text_kg'' 0 Map.empty
     \<lparr>ex_game = ''TESO'', ex_plots = [''Find Delilah.''],
      ex_kbs = [\<lparr>kb_name = ''Delilah'', kb_description = ''a witch'', kb_type = ''character'',
                 kb_relations = [(''present in'', ''Manor'')]\<rparr>],
      ex_quest = [(''title'', QStr ''the hunt'')]\<rparr> (\<lambda>i. 0)
   = Inr (''### Background:\<newline>Delilah is a character. Delilah is present in Manor. \<newline>\<newline>\<newline>### Plots:\<newline>Find Delilah.\<newline>\<newline>The quest related to the above information is as follows:'',
          ''### Quest:\<newline>Title: The hunt\<newline>\<newline>\<newline>### End'')"
  by code_simp

section \<open>The random source is the only hidden input\<close>

lemma sample_loop_rng: "snd (sample_loop pool live k g) = (\<lambda>i. g (k + i))"
proof (induction k arbitrary: pool live g)
  case 0
  show ?case by simp
next
  case (Suc k)
  show ?case
    unfolding sample_loop_Suc by (simp add: Suc.IH)
qed

lemma sample_loop_agree:
  "\<forall>i<k. g1 i = g2 i \<Longrightarrow>
   fst (sample_loop pool live k g1) = fst (sample_loop pool live k g2)"
proof (induction k arbitrary: pool live g1 g2)
  case 0
  show ?case by simp
next
  case (Suc k)
  from Suc.prems have first: "g1 0 = g2 0"
    by simp
  from Suc.prems have "\<forall>i<k. (\<lambda>i. g1 (Suc i)) i = (\<lambda>i. g2 (Suc i)) i"
    by simp
  from Suc.IH [OF this] first show ?case
    unfolding sample_loop_Suc by simp
qed

lemma choose_relations_draws:
  "\<exists>rs. choose_relations KG_DEPTH (kb_relations kb) g =
          Inr (rs, \<lambda>i. g (draws_kb KG_DEPTH kb + i))"
proof (cases "0 < KG_DEPTH")
  case False
  then show ?thesis
    by (simp add: choose_relations_def draws_kb_def)
next
  case True
  define k where "k = (if int (length (kb_relations kb)) < KG_DEPTH - 1
                       then int (length (kb_relations kb)) else KG_DEPTH - 1)"
  have k: "0 \<le> k" "k \<le> int (length (kb_relations kb))"
    using True by (auto simp: k_def)
  have nk: "nat k = draws_kb KG_DEPTH kb"
    using True by (auto simp: k_def draws_kb_def min_def)
  have "choose_relations KG_DEPTH (kb_relations kb) g =
      Inr (sample_loop (kb_relations kb) (length (kb_relations kb)) (nat k) g)"
    using True k by (simp add: choose_relations_def random_sample_def Let_def k_def)
  also have "sample_loop (kb_relations kb) (length (kb_relations kb)) (nat k) g =
      (fst (sample_loop (kb_relations kb) (length (kb_relations kb)) (nat k) g),
       \<lambda>i. g (nat k + i))"
    using sample_loop_rng [of "kb_relations kb" "length (kb_relations kb)" "nat k" g]
    by (metis prod.collapse)
  finally show ?thesis
    using nk by auto
qed

lemma choose_relations_agree:
  assumes "\<forall>i<draws_kb KG_DEPTH kb. g1 i = g2 i"
  shows "map_sum id fst (choose_relations KG_DEPTH (kb_relations kb) g1) =
         map_sum id fst (choose_relations KG_DEPTH (kb_relations kb) g2)"
proof (cases "0 < KG_DEPTH")
  case False
  then show ?thesis
    by (simp add: choose_relations_def)
next
  case True
  define k where "k = (if int (length (kb_relations kb)) < KG_DEPTH - 1
                       then int (length (kb_relations kb)) else KG_DEPTH - 1)"
  have nk: "nat k = draws_kb KG_DEPTH kb"
    using True by (auto simp: k_def draws_kb_def min_def)
  have "fst (sample_loop (kb_relations kb) (length (kb_relations kb)) (nat k) g1) =
        fst (sample_loop (kb_relations kb) (length (kb_relations kb)) (nat k) g2)"
    using assms nk by (intro sample_loop_agree) simp
  then show ?thesis
    using True by (simp add: choose_relations_def random_sample_def Let_def k_def)
qed

lemma kb_step_gen_agree:
  assumes "\<forall>i<draws_kb KG_DEPTH kb. g1 i = g2 i"
  shows "\<exists>st'. kb_step_gen KG_DEPTH kb (st, g1) = Inr (st', \<lambda>i. g1 (draws_kb KG_DEPTH kb + i)) \<and>
               kb_step_gen KG_DEPTH kb (st, g2) = Inr (st', \<lambda>i. g2 (draws_kb KG_DEPTH kb + i))"
proof -
  obtain r1 where c1: "choose_relations KG_DEPTH (kb_relations kb) g1 =
      Inr (r1, \<lambda>i. g1 (draws_kb KG_DEPTH kb + i))"
    using choose_relations_draws by blast
  obtain r2 where c2: "choose_relations KG_DEPTH (kb_relations kb) g2 =
      Inr (r2, \<lambda>i. g2 (draws_kb KG_DEPTH kb + i))"
    using choose_relations_draws by blast
  from choose_relations_agree [OF assms] c1 c2 have "r1 = r2"
    by simp
  with c1 c2 show ?thesis
    by (simp add: kb_step_gen_def Let_def)
qed

lemma for_each_kb_step_gen_agree:
  "\<forall>i<draws KG_DEPTH kbs. g1 i = g2 i \<Longrightarrow>
   map_sum id fst (for_each (kb_step_gen KG_DEPTH) kbs (st, g1)) =
   map_sum id fst (for_each (kb_step_gen KG_DEPTH) kbs (st, g2))"
proof (induction kbs arbitrary: st g1 g2)
  case Nil
  show ?case by simp
next
  case (Cons kb kbs)
  let ?d = "draws_kb KG_DEPTH kb"
  from Cons.prems have here: "\<forall>i<?d. g1 i = g2 i"
    by (simp add: draws_def)
  from Cons.prems have later:
    "\<forall>i<draws KG_DEPTH kbs. (\<lambda>i. g1 (?d + i)) i = (\<lambda>i. g2 (?d + i)) i"
    by (simp add: draws_def)
  obtain st' where
    s1: "kb_step_gen KG_DEPTH kb (st, g1) = Inr (st', \<lambda>i. g1 (?d + i))" and
    s2: "kb_step_gen KG_DEPTH kb (st, g2) = Inr (st', \<lambda>i. g2 (?d + i))"
    using kb_step_gen_agree [OF here] by blast
  from Cons.IH [OF later, of st'] s1 s2 show ?case
    by simp
qed

lemma phase_a_gen_agree:
  assumes "\<forall>i<draws KG_DEPTH kbs. g1 i = g2 i"
  shows "\<exists>st h1 h2. phase_a_gen KG_DEPTH kbs g1 = Inr (st, h1) \<and>
                     phase_a_gen KG_DEPTH kbs g2 = Inr (st, h2)"
proof -
  obtain st1 h1 where p1: "phase_a_gen KG_DEPTH kbs g1 = Inr (st1, h1)"
    using phase_a_gen_total by blast
  obtain st2 h2 where p2: "phase_a_gen KG_DEPTH kbs g2 = Inr (st2, h2)"
    using phase_a_gen_total by blast
  from for_each_kb_step_gen_agree [OF assms, of init_state] p1 p2 have "st1 = st2"
    by (simp add: phase_a_gen_def)
  with p1 p2 show ?thesis
    by blast
qed

lemma text_kg_gen_agree:
  assumes "\<forall>i<draws KG_DEPTH (ex_kbs input). g1 i = g2 i"
  shows "text_kg_gen KG_DEPTH kg_map input g1 = text_kg_gen KG_DEPTH kg_map input g2"
proof -
  obtain st h1 h2 where "phase_a_gen KG_DEPTH (ex_kbs input) g1 = Inr (st, h1)"
    and "phase_a_gen KG_DEPTH (ex_kbs input) g2 = Inr (st, h2)"
    using phase_a_gen_agree [OF assms] by blast
  then show ?thesis
    by (simp add: text_kg_gen_def)
qed

text \<open>
  C7. The generation builder reads the random source only through the draws of
  Phase A, one per sampled relation: two runs on the same mode, depth, registry
  and example whose random sources agree on those first \<open>draws\<close> values (in
  particular two runs from the same seed) return the same text and the same
  expected output. The training builder takes no random source at all.
\<close>

theorem same_seed_same_output:
  assumes "\<forall>i<draws KG_DEPTH (ex_kbs input). g1 i = g2 i"
  shows "create_generation_prompt_formats TRAIN_TYPE KG_DEPTH kg_map input g1 =
         create_generation_prompt_formats TRAIN_TYPE KG_DEPTH kg_map input g2"
  unfolding create_generation_prompt_formats_def text_kg_gen_agree [OF assms] ..

theorem same_seed_same_output_witness:
  "draws 2 (ex_kbs sampling_example) = 1 \<and>
   (\<lambda>i. if i = 0 then 1 else 5) (0::nat) = (\<lambda>i. if i = 0 then 1 else (7::nat)) 0 \<and>
   (\<lambda>i. if i = 0 then 1 else 5) (1::nat) \<noteq> (\<lambda>i. if i = 0 then 1 else (7::nat)) 1 \<and>
   create_generation_prompt_formats ''text_kg'' 2 [''G'' \<mapsto> manor_graph] sampling_example
     (\<lambda>i. if i = 0 then 1 else 5)
   = Inr (''### Background:\<newline>Delilah is a character. Delilah is a witch. Delilah is held by Ring. \<newline>\<newline>\<newline>### Plots:\<newline>A quiet night.\<newline>\<newline>The quest related to the above information is as follows:'',
          ''### Quest:\<newline>Title: The hunt\<newline>\<newline>\<newline>### End'') \<and>
   create_generation_prompt_formats ''text_kg'' 2 [''G'' \<mapsto> manor_graph] sampling_example
     (\<lambda>i. if i = 0 then 1 else 7)
   = Inr (''### Background:\<newline>Delilah is a character. Delilah is a witch. Delilah is held by Ring. \<newline>\<newline>\<newline>### Plots:\<newline>A quiet night.\<newline>\<newline>The quest related to the above information is as follows:'',
          ''### Quest:\<newline>Title: The hunt\<newline>\<newline>\<newline>### End'')"
proof -
  have d: "draws 2 (ex_kbs sampling_example) = 1"
    by (simp add: draws_def draws_kb_def sampling_example_def)
  have run: "create_generation_prompt_formats ''text_kg'' 2 [''G'' \<mapsto> manor_graph]
      sampling_example (\<lambda>i. if i = 0 then 1 else 5)
   = Inr (''### Background:\<newline>Delilah is a character. Delilah is a witch. Delilah is held by Ring. \<newline>\<newline>\<newline>### Plots:\<newline>A quiet night.\<newline>\<newline>The quest related to the above information is as follows:'',
          ''### Quest:\<newline>Title: The hunt\<newline>\<newline>\<newline>### End'')"
    by code_simp
  have "\<forall>i<draws 2 (ex_kbs sampling_example).
      (\<lambda>i::nat. if i = 0 then 1 else (5::nat)) i = (\<lambda>i. if i = 0 then 1 else 7) i"
    using d by simp
  from same_seed_same_output [OF this, of "''text_kg''" "[''G'' \<mapsto> manor_graph]"] run
  have "create_generation_prompt_formats ''text_kg'' 2 [''G'' \<mapsto> manor_graph]
      sampling_example (\<lambda>i. if i = 0 then 1 else 7)
   = Inr (''### Background:\<newline>Delilah is a character. Delilah is a witch. Delilah is held by Ring. \<newline>\<newline>\<newline>### Plots:\<newline>A quiet night.\<newline>\<newline>The quest related to the above information is as follows:'',
          ''### Quest:\<newline>Title: The hunt\<newline>\<newline>\<newline>### End'')"
    by simp
  with d run show ?thesis
    by simp
qed

text \<open>
  The draws do decide the text: sources that differ on the first draw give
  different backgrounds on the same example.
\<close>

lemma different_draw_different_output:
  "create_generation_prompt_formats ''text_kg'' 2 [''G'' \<mapsto> manor_graph] sampling_example
     (\<lambda>i. 0)
   = Inr (''### Background:\<newline>Delilah is a character. Delilah is a witch. Delilah is present in Manor. \<newline>\<newline>\<newline>### Plots:\<newline>A quiet night.\<newline>\<newline>The quest related to the above information is as follows:'',
          ''### Quest:\<newline>Title: The hunt\<newline>\<newline>\<newline>### End'') \<and>
   create_generation_prompt_formats ''text_kg'' 2 [''G'' \<mapsto> manor_graph] sampling_example
     (\<lambda>i. 1)
   = Inr (''### Background:\<newline>Delilah is a character. Delilah is a witch. Delilah is held by Ring. \<newline>\<newline>\<newline>### Plots:\<newline>A quiet night.\<newline>\<newline>The quest related to the above information is as follows:'',
          ''### Quest:\<newline>Title: The hunt\<newline>\<newline>\<newline>### End'')"
  by code_simp

section \<open>Phase B as a list of events\<close>


lemma introduce_known:
  "ent \<in> set (completed_nodes st) \<Longrightarrow> introduce ent shown e_type e_desc st = st"
  by (simp add: introduce_def)

lemma introduce_new:
  "ent \<notin> set (completed_nodes st) \<Longrightarrow>
   completed_nodes (introduce ent shown e_type e_desc st) = completed_nodes st @ [ent] \<and>
   background (introduce ent shown e_type e_desc st) =
     background st @ shown @ '' is a '' @ e_type @ ''. '' @
     (if e_desc \<noteq> ent then ent @ '' is '' @ e_desc @ ''. '' else []) @ nl"
  by (simp add: introduce_def)

lemma introduce_rels [simp]:
  "completed_rels (introduce ent shown e_type e_desc st) = completed_rels st"
  by (simp add: introduce_def)

lemma for_each_append:
  "for_each body (xs @ ys) s =
     (case for_each body xs s of Inl e \<Rightarrow> Inl e | Inr s' \<Rightarrow> for_each body ys s')"
  by (induction xs arbitrary: s) (simp_all split: sum.splits)

lemma nodes_loop_gen_edges:
  "for_each (node_step_gen KG_DEPTH g plots) nodes st =
   for_each (edge_step False g) (plot_traversal (Some (nat KG_DEPTH)) g plots nodes) st"
proof (induction nodes arbitrary: st)
  case Nil
  show ?case by (simp add: plot_traversal_def)
next
  case (Cons node nodes)
  have step: "node_step_gen KG_DEPTH g plots node st =
      for_each (edge_step False g)
        (if str_in (lower (fst node)) (lower plots)
         then dfs_edges g (fst node) (Some (nat KG_DEPTH)) else []) st"
    by (simp add: node_step_gen_def edge_step_gen_def)
  have "plot_traversal (Some (nat KG_DEPTH)) g plots (node # nodes) =
      (if str_in (lower (fst node)) (lower plots)
       then dfs_edges g (fst node) (Some (nat KG_DEPTH)) else [])
      @ plot_traversal (Some (nat KG_DEPTH)) g plots nodes"
    by (simp add: plot_traversal_def)
  then show ?case
    by (simp add: step for_each_append Cons.IH split: sum.splits)
qed

lemma nodes_loop_train_edges:
  "for_each (node_step_train g plots) nodes st =
   for_each (edge_step True g) (plot_traversal None g plots nodes) st"
proof (induction nodes arbitrary: st)
  case Nil
  show ?case by (simp add: plot_traversal_def)
next
  case (Cons node nodes)
  have step: "node_step_train g plots node st =
      for_each (edge_step True g)
        (if str_in (lower (fst node)) (lower plots)
         then dfs_edges g (fst node) None else []) st"
    by (simp add: node_step_train_def edge_step_train_def)
  have "plot_traversal None g plots (node # nodes) =
      (if str_in (lower (fst node)) (lower plots) then dfs_edges g (fst node) None else [])
      @ plot_traversal None g plots nodes"
    by (simp add: plot_traversal_def)
  then show ?case
    by (simp add: step for_each_append Cons.IH split: sum.splits)
qed

lemma plot_traversal_edge:
  "e \<in> set (plot_traversal limit g plots nodes) \<Longrightarrow>
   \<exists>node \<in> set nodes. str_in (lower (fst node)) (lower plots) \<and>
      e \<in> set (dfs_edges g (fst node) limit)"
  by (auto simp: plot_traversal_def split: if_splits)

lemma introduced_append: "introduced (xs @ ys) = introduced xs @ introduced ys"
  by (induction xs rule: introduced.induct) simp_all


lemma edge_events_Cons:
  "edge_events training known (e # es) =
     edge_events training known [e] @
     edge_events training (known @ introduced (edge_events training known [e])) es"
  by simp




lemma fresh_edges_subset: "set (fresh_edges seen es) \<subseteq> set es"
  by (induction es arbitrary: seen) auto

lemma edge_step_skipped:
  "rel_done (completed_rels st) e \<Longrightarrow> edge_step training g e st = Inr st"
  by (simp add: edge_step_def rel_done_def)

lemma edge_step_block:
  assumes "edge_step training g e st = Inr st'" and "\<not> rel_done (completed_rels st) e"
  shows "completed_rels st' = completed_rels st @ [e] \<and>
     completed_nodes st' =
       completed_nodes st @ introduced (edge_events training (completed_nodes st) [e]) \<and>
     background st' =
       background st @
       concat (map (event_text g) (edge_events training (completed_nodes st) [e]))"
proof -
  from assms obtain t1 d1 t2 d2 rel where
    a: "node_attr g (fst e) ''type'' = Inr t1" "node_attr g (fst e) ''description'' = Inr d1"
       "node_attr g (snd e) ''type'' = Inr t2" "node_attr g (snd e) ''description'' = Inr d2"
       "edge_label g (fst e) (snd e) = Inr rel"
    by (auto simp: edge_step_def rel_done_def Let_def split: sum.splits)
  have pair: "e = (fst e, snd e)"
    by simp
  from assms(2) have fresh: "(fst e, snd e) \<notin> set (completed_rels st)"
    "(snd e, fst e) \<notin> set (completed_rels st)"
    by (simp_all add: rel_done_def)
  have "edge_step training g (fst e, snd e) st =
     Inr ((introduce (snd e) (if training then fst e else snd e) t2 d2
            (introduce (fst e) (fst e) t1 d1 st))
          \<lparr>background :=
             background (introduce (snd e) (if training then fst e else snd e) t2 d2
               (introduce (fst e) (fst e) t1 d1 st))
             @ relation_sentence rel t1 (fst e) (snd e) @ nl,
           completed_rels := completed_rels st @ [(fst e, snd e)]\<rparr>)"
    by (rule edge_step_run [OF fresh a])
  with assms(1) have st': "st' =
     (introduce (snd e) (if training then fst e else snd e) t2 d2
            (introduce (fst e) (fst e) t1 d1 st))
          \<lparr>background :=
             background (introduce (snd e) (if training then fst e else snd e) t2 d2
               (introduce (fst e) (fst e) t1 d1 st))
             @ relation_sentence rel t1 (fst e) (snd e) @ nl,
           completed_rels := completed_rels st @ [e]\<rparr>"
    by simp
  show ?thesis
    unfolding st' using a
    by (simp add: introduce_def attr_def label_def)
qed

lemma edges_loop_trace:
  "for_each (edge_step training g) es st = Inr st' \<Longrightarrow>
   completed_rels st' = completed_rels st @ fresh_edges (completed_rels st) es \<and>
   completed_nodes st' =
     completed_nodes st @
     introduced (edge_events training (completed_nodes st) (fresh_edges (completed_rels st) es)) \<and>
   background st' =
     background st @
     concat (map (event_text g)
       (edge_events training (completed_nodes st) (fresh_edges (completed_rels st) es)))"
proof (induction es arbitrary: st)
  case Nil
  then show ?case by simp
next
  case (Cons e es)
  show ?case
  proof (cases "rel_done (completed_rels st) e")
    case True
    with Cons.prems have "for_each (edge_step training g) es st = Inr st'"
      by (simp add: edge_step_skipped)
    from Cons.IH [OF this] True show ?thesis
      by simp
  next
    case False
    from Cons.prems obtain s1 where
      s1: "edge_step training g e st = Inr s1" and
      rest: "for_each (edge_step training g) es s1 = Inr st'"
      by (auto split: sum.splits)
    let ?here = "edge_events training (completed_nodes st) [e]"
    from edge_step_block [OF s1 False] have
      r1: "completed_rels s1 = completed_rels st @ [e]" and
      n1: "completed_nodes s1 = completed_nodes st @ introduced ?here" and
      b1: "background s1 = background st @ concat (map (event_text g) ?here)"
      by simp_all
    let ?new = "fresh_edges (completed_rels st @ [e]) es"
    from Cons.IH [OF rest] r1 n1 b1 have
      "completed_rels st' = completed_rels st @ e # ?new" and
      "completed_nodes st' =
         completed_nodes st @ introduced ?here @
         introduced (edge_events training (completed_nodes st @ introduced ?here) ?new)" and
      "background st' =
         background st @ concat (map (event_text g) ?here) @
         concat (map (event_text g)
           (edge_events training (completed_nodes st @ introduced ?here) ?new))"
      by simp_all
    moreover have "fresh_edges (completed_rels st) (e # es) = e # ?new"
      using False by simp
    moreover have "edge_events training (completed_nodes st) (e # ?new) =
        ?here @ edge_events training (completed_nodes st @ introduced ?here) ?new"
      by (rule edge_events_Cons)
    ultimately show ?thesis
      by (simp only: introduced_append map_append concat_append)
  qed
qed

text \<open>The shape of a successful run of the generation notebook's \<open>text_kg\<close> block.\<close>

lemma text_kg_gen_run:
  assumes "text_kg_gen KG_DEPTH kg_map input g = Inr st"
  shows "\<exists>stA g'. phase_a_gen KG_DEPTH (ex_kbs input) g = Inr (stA, g') \<and>
     ((KG_DEPTH \<le> 0 \<and> st = stA) \<or>
      (0 < KG_DEPTH \<and>
       (\<exists>kg. kg_map (ex_game input) = Some kg \<and>
          for_each (node_step_gen KG_DEPTH kg (plots_section input)) (kg_nodes kg) stA = Inr st)))"
proof -
  obtain stA g' where a: "phase_a_gen KG_DEPTH (ex_kbs input) g = Inr (stA, g')"
    using phase_a_gen_total by blast
  with assms show ?thesis
    by (cases "0 < KG_DEPTH") (auto simp: text_kg_gen_def split: option.splits)
qed



lemma text_kg_train_run:
  assumes "text_kg_train kg_map input = Inr st"
  shows "\<exists>kg. kg_map (ex_game input) = Some kg \<and>
     for_each (node_step_train kg (plots_section input)) (kg_nodes kg)
       (fold kb_step_train (ex_kbs input) init_state) = Inr st"
  using assms by (auto simp: text_kg_train_def Let_def split: option.splits)



text \<open>A successful run of the generation notebook for a positive depth, as events.\<close>

lemma text_kg_gen_trace:
  assumes "text_kg_gen KG_DEPTH kg_map input g = Inr st" and "0 < KG_DEPTH"
  shows "\<exists>kg stA g'.
     kg_map (ex_game input) = Some kg \<and>
     phase_a_gen KG_DEPTH (ex_kbs input) g = Inr (stA, g') \<and>
     completed_rels st =
       completed_rels stA @
       fresh_edges (completed_rels stA)
         (plot_traversal (Some (nat KG_DEPTH)) kg (plots_section input) (kg_nodes kg)) \<and>
     completed_nodes st =
       completed_nodes stA @
       introduced (edge_events False (completed_nodes stA)
         (fresh_edges (completed_rels stA)
           (plot_traversal (Some (nat KG_DEPTH)) kg (plots_section input) (kg_nodes kg)))) \<and>
     background st =
       background stA @
       concat (map (event_text kg)
         (edge_events False (completed_nodes stA)
           (fresh_edges (completed_rels stA)
             (plot_traversal (Some (nat KG_DEPTH)) kg (plots_section input) (kg_nodes kg)))))"
proof -
  from text_kg_gen_run [OF assms(1)] assms(2) obtain stA g' kg where
    a: "phase_a_gen KG_DEPTH (ex_kbs input) g = Inr (stA, g')" and
    k: "kg_map (ex_game input) = Some kg" and
    b: "for_each (node_step_gen KG_DEPTH kg (plots_section input)) (kg_nodes kg) stA = Inr st"
    by auto
  from b have "for_each (edge_step False kg)
      (plot_traversal (Some (nat KG_DEPTH)) kg (plots_section input) (kg_nodes kg)) stA = Inr st"
    by (simp only: nodes_loop_gen_edges)
  from edges_loop_trace [OF this] a k show ?thesis
    by blast
qed

text \<open>A successful run of the training notebook, as events.\<close>

lemma text_kg_train_trace:
  assumes "text_kg_train kg_map input = Inr st"
  shows "\<exists>kg.
     kg_map (ex_game input) = Some kg \<and>
     completed_rels st =
       completed_rels (fold kb_step_train (ex_kbs input) init_state) @
       fresh_edges (completed_rels (fold kb_step_train (ex_kbs input) init_state))
         (plot_traversal None kg (plots_section input) (kg_nodes kg)) \<and>
     background st =
       background (fold kb_step_train (ex_kbs input) init_state) @
       concat (map (event_text kg)
         (edge_events True (completed_nodes (fold kb_step_train (ex_kbs input) init_state))
           (fresh_edges (completed_rels (fold kb_step_train (ex_kbs input) init_state))
             (plot_traversal None kg (plots_section input) (kg_nodes kg)))))"
proof -
  from text_kg_train_run [OF assms] obtain kg where
    k: "kg_map (ex_game input) = Some kg" and
    b: "for_each (node_step_train kg (plots_section input)) (kg_nodes kg)
          (fold kb_step_train (ex_kbs input) init_state) = Inr st"
    by blast
  from b have "for_each (edge_step True kg)
      (plot_traversal None kg (plots_section input) (kg_nodes kg))
      (fold kb_step_train (ex_kbs input) init_state) = Inr st"
    by (simp only: nodes_loop_train_edges)
  from edges_loop_trace [OF this] k show ?thesis
    by blast
qed

section \<open>The traversal stays within its hop limit\<close>

lemma within_hops_refl: "within_hops g n s s"
  by (cases n) simp_all

lemma within_hops_via:
  "c \<in> set (neighbors g p) \<Longrightarrow> within_hops g n c u \<Longrightarrow> within_hops g (Suc n) p u"
  by auto

lemma within_hops_step:
  "within_hops g n s u \<Longrightarrow> v \<in> set (neighbors g u) \<Longrightarrow> within_hops g (Suc n) s v"
proof (induction n arbitrary: s)
  case 0
  then show ?case
    by auto
next
  case (Suc n)
  from Suc.prems(1) consider "s = u" | mid where "mid \<in> set (neighbors g s)" "within_hops g n mid u"
    by auto
  then show ?case
  proof cases
    case 1
    with Suc.prems(2) have "v \<in> set (neighbors g s)"
      by simp
    then show ?thesis
      by (rule within_hops_via [OF _ within_hops_refl])
  next
    case 2
    from 2(1) Suc.IH [OF 2(2) Suc.prems(2)] show ?thesis
      by (rule within_hops_via)
  qed
qed

lemma dfs_visit_hops:
  "e \<in> set (fst (dfs_visit g d p cs vis)) \<Longrightarrow> set cs \<subseteq> set (neighbors g p) \<Longrightarrow> 0 < d \<Longrightarrow>
   within_hops g (d - 1) p (fst e) \<and> snd e \<in> set (neighbors g (fst e))"
proof (induction g d p cs vis rule: dfs_visit.induct)
  case (1 g depth_now parent visited)
  then show ?case by simp
next
  case (2 g depth_now parent child children visited)
  show ?case
  proof (cases "child \<in> visited")
    case True
    with 2 show ?thesis by simp
  next
    case False
    define r1 where "r1 = (if 1 < depth_now
                then dfs_visit g (depth_now - 1) child (neighbors g child) (insert child visited)
                else ([], insert child visited))"
    define r2 where "r2 = dfs_visit g depth_now parent children (snd r1)"
    have unfold: "fst (dfs_visit g depth_now parent (child # children) visited) =
        (parent, child) # fst r1 @ fst r2"
      using False by (simp add: r1_def r2_def case_prod_beta Let_def)
    from "2.prems"(1) unfold consider "e = (parent, child)" | "e \<in> set (fst r1)" | "e \<in> set (fst r2)"
      by auto
    then show ?thesis
    proof cases
      case 1
      with "2.prems"(2) show ?thesis
        by (simp add: within_hops_refl)
    next
      case 2
      then have deep: "1 < depth_now"
        by (auto simp: r1_def split: if_splits)
      with 2 have "e \<in> set (fst (dfs_visit g (depth_now - 1) child (neighbors g child) (insert child visited)))"
        by (simp add: r1_def)
      from "2.IH"(2) [OF False deep this] deep
      have below: "within_hops g (depth_now - 1 - 1) child (fst e)"
        and nb: "snd e \<in> set (neighbors g (fst e))"
        by simp_all
      have child: "child \<in> set (neighbors g parent)"
        using "2.prems"(2) by simp
      have eq: "depth_now - 1 = Suc (depth_now - 1 - 1)"
        using deep by simp
      have "within_hops g (depth_now - 1) parent (fst e)"
        by (subst eq) (rule within_hops_via [OF child below])
      with nb show ?thesis
        by simp
    next
      case 3
      obtain below visited1 where r1: "r1 = (below, visited1)"
        by (cases r1)
      have "e \<in> set (fst (dfs_visit g depth_now parent children visited1))"
        using 3 r1 by (simp add: r2_def)
      from "2.IH"(3) [OF False r1 [unfolded r1_def, symmetric] refl this] "2.prems"(2,3)
      show ?thesis
        by simp
    qed
  qed
qed

lemma dfs_edges_hops:
  assumes "0 < d" and "e \<in> set (dfs_edges g s (Some d))"
  shows "within_hops g d s (snd e)"
proof -
  from assms(2) have "e \<in> set (fst (dfs_visit g d s (neighbors g s) {s}))"
    by (simp add: dfs_edges_def)
  from dfs_visit_hops [OF this _ assms(1)]
  have "within_hops g (d - 1) s (fst e)" and "snd e \<in> set (neighbors g (fst e))"
    by simp_all
  then have "within_hops g (Suc (d - 1)) s (snd e)"
    by (rule within_hops_step)
  with assms(1) show ?thesis
    by simp
qed

lemma plot_traversal_hops:
  assumes "0 < d" and "e \<in> set (plot_traversal (Some d) g plots nodes)"
  shows "\<exists>node \<in> set nodes. str_in (lower (fst node)) (lower plots) \<and>
           e \<in> set (dfs_edges g (fst node) (Some d)) \<and> within_hops g d (fst node) (snd e)"
proof -
  from plot_traversal_edge [OF assms(2)] obtain node where
    "node \<in> set nodes" "str_in (lower (fst node)) (lower plots)"
    "e \<in> set (dfs_edges g (fst node) (Some d))"
    by blast
  with dfs_edges_hops [OF assms(1), of e g "fst node"] show ?thesis
    by blast
qed

text \<open>
  C4, as the code has it. In the generation notebook the graph is traversed
  exactly for a positive depth. For a depth of zero or less the result is the
  Phase A state of the kbs with all their relations, whatever the registry holds.
  For a positive depth a run that returns has looked the graph up and processed,
  in order, every edge of the traversals, limited to \<open>KG_DEPTH\<close>, from the nodes
  whose names occur in the plots: the pairs it added to \<open>completed_rels\<close> are
  exactly the edges of these traversals that pass the test of the edge loop, the
  text it added is the text of their events, and the target of every traversed
  edge is at most \<open>KG_DEPTH\<close> hops from the start of its traversal. The training
  notebook reads no depth: a run that returns has processed the traversals without
  a limit.
\<close>

theorem traversal_only_for_positive_depth:
  "(KG_DEPTH \<le> 0 \<longrightarrow>
      text_kg_gen KG_DEPTH kg_map input g = Inr (phase_a_all (ex_kbs input))) \<and>
   (0 < KG_DEPTH \<longrightarrow> text_kg_gen KG_DEPTH kg_map input g = Inr st \<longrightarrow>
      (\<exists>kg stA g'.
         kg_map (ex_game input) = Some kg \<and>
         phase_a_gen KG_DEPTH (ex_kbs input) g = Inr (stA, g') \<and>
         completed_rels st =
           completed_rels stA @
           fresh_edges (completed_rels stA)
             (plot_traversal (Some (nat KG_DEPTH)) kg (plots_section input) (kg_nodes kg)) \<and>
         background st =
           background stA @
           concat (map (event_text kg)
             (edge_events False (completed_nodes stA)
               (fresh_edges (completed_rels stA)
                 (plot_traversal (Some (nat KG_DEPTH)) kg (plots_section input) (kg_nodes kg))))) \<and>
         (\<forall>e \<in> set (plot_traversal (Some (nat KG_DEPTH)) kg (plots_section input) (kg_nodes kg)).
            \<exists>node \<in> set (kg_nodes kg).
              str_in (lower (fst node)) (lower (plots_section input)) \<and>
              e \<in> set (dfs_edges kg (fst node) (Some (nat KG_DEPTH))) \<and>
              within_hops kg (nat KG_DEPTH) (fst node) (snd e)))) \<and>
   (text_kg_train kg_map input = Inr st' \<longrightarrow>
      (\<exists>kg.
         kg_map (ex_game input) = Some kg \<and>
         completed_rels st' =
           completed_rels (fold kb_step_train (ex_kbs input) init_state) @
           fresh_edges (completed_rels (fold kb_step_train (ex_kbs input) init_state))
             (plot_traversal None kg (plots_section input) (kg_nodes kg)) \<and>
         background st' =
           background (fold kb_step_train (ex_kbs input) init_state) @
           concat (map (event_text kg)
             (edge_events True (completed_nodes (fold kb_step_train (ex_kbs input) init_state))
               (fresh_edges (completed_rels (fold kb_step_train (ex_kbs input) init_state))
                 (plot_traversal None kg (plots_section input) (kg_nodes kg)))))))"
proof (intro conjI impI)
  assume "KG_DEPTH \<le> 0"
  then show "text_kg_gen KG_DEPTH kg_map input g = Inr (phase_a_all (ex_kbs input))"
    by (rule text_kg_gen_nonpositive)
next
  assume pos: "0 < KG_DEPTH" and run: "text_kg_gen KG_DEPTH kg_map input g = Inr st"
  from text_kg_gen_trace [OF run pos] obtain kg stA g' where
    t: "kg_map (ex_game input) = Some kg"
       "phase_a_gen KG_DEPTH (ex_kbs input) g = Inr (stA, g')"
       "completed_rels st =
           completed_rels stA @
           fresh_edges (completed_rels stA)
             (plot_traversal (Some (nat KG_DEPTH)) kg (plots_section input) (kg_nodes kg))"
       "background st =
           background stA @
           concat (map (event_text kg)
             (edge_events False (completed_nodes stA)
               (fresh_edges (completed_rels stA)
                 (plot_traversal (Some (nat KG_DEPTH)) kg (plots_section input) (kg_nodes kg)))))"
    by blast
  have "\<forall>e \<in> set (plot_traversal (Some (nat KG_DEPTH)) kg (plots_section input) (kg_nodes kg)).
            \<exists>node \<in> set (kg_nodes kg).
              str_in (lower (fst node)) (lower (plots_section input)) \<and>
              e \<in> set (dfs_edges kg (fst node) (Some (nat KG_DEPTH))) \<and>
              within_hops kg (nat KG_DEPTH) (fst node) (snd e)"
  proof
    fix e
    assume "e \<in> set (plot_traversal (Some (nat KG_DEPTH)) kg (plots_section input) (kg_nodes kg))"
    with pos show "\<exists>node \<in> set (kg_nodes kg).
              str_in (lower (fst node)) (lower (plots_section input)) \<and>
              e \<in> set (dfs_edges kg (fst node) (Some (nat KG_DEPTH))) \<and>
              within_hops kg (nat KG_DEPTH) (fst node) (snd e)"
      by (intro plot_traversal_hops) simp_all
  qed
  with t show "\<exists>kg stA g'.
         kg_map (ex_game input) = Some kg \<and>
         phase_a_gen KG_DEPTH (ex_kbs input) g = Inr (stA, g') \<and>
         completed_rels st =
           completed_rels stA @
           fresh_edges (completed_rels stA)
             (plot_traversal (Some (nat KG_DEPTH)) kg (plots_section input) (kg_nodes kg)) \<and>
         background st =
           background stA @
           concat (map (event_text kg)
             (edge_events False (completed_nodes stA)
               (fresh_edges (completed_rels stA)
                 (plot_traversal (Some (nat KG_DEPTH)) kg (plots_section input) (kg_nodes kg))))) \<and>
         (\<forall>e \<in> set (plot_traversal (Some (nat KG_DEPTH)) kg (plots_section input) (kg_nodes kg)).
            \<exists>node \<in> set (kg_nodes kg).
              str_in (lower (fst node)) (lower (plots_section input)) \<and>
              e \<in> set (dfs_edges kg (fst node) (Some (nat KG_DEPTH))) \<and>
              within_hops kg (nat KG_DEPTH) (fst node) (snd e))"
    by blast
next
  assume "text_kg_train kg_map input = Inr st'"
  then show "\<exists>kg.
         kg_map (ex_game input) = Some kg \<and>
         completed_rels st' =
           completed_rels (fold kb_step_train (ex_kbs input) init_state) @
           fresh_edges (completed_rels (fold kb_step_train (ex_kbs input) init_state))
             (plot_traversal None kg (plots_section input) (kg_nodes kg)) \<and>
         background st' =
           background (fold kb_step_train (ex_kbs input) init_state) @
           concat (map (event_text kg)
             (edge_events True (completed_nodes (fold kb_step_train (ex_kbs input) init_state))
               (fresh_edges (completed_rels (fold kb_step_train (ex_kbs input) init_state))
                 (plot_traversal None kg (plots_section input) (kg_nodes kg)))))"
    by (rule text_kg_train_trace)
qed

lemma manor_run_depth_one:
  "text_kg_gen 1 [''G'' \<mapsto> manor_graph] manor_example (\<lambda>i. 0) =
     Inr \<lparr>background = ''Delilah is a character. Delilah is the leader of the witches. \<newline>Manor is a location. Manor is a lair. \<newline>Delilah is present in Manor. \<newline>Cellar is a location. \<newline>Manor is connected to Cellar. \<newline>'',
          completed_rels = [(''Delilah'', ''Manor''), (''Manor'', ''Cellar'')],
          completed_nodes = [''Delilah'', ''Manor'', ''Cellar'']\<rparr>"
  by code_simp


lemma manor_phase_a_depth_one:
  "map_sum id fst (phase_a_gen 1 (ex_kbs manor_example) (\<lambda>i. 0)) =
     Inr \<lparr>background = ''Delilah is a character. Delilah is the leader of the witches. \<newline>'',
          completed_rels = [], completed_nodes = [''Delilah'']\<rparr>"
  by code_simp


lemma manor_traversal_depth_one:
  "plot_traversal (Some (nat 1)) manor_graph (plots_section manor_example) (kg_nodes manor_graph) =
     [(''Delilah'', ''Manor''), (''Manor'', ''Delilah''), (''Manor'', ''Cellar'')]"
  by code_simp

lemma manor_traversal_depth_two:
  "plot_traversal (Some (nat 2)) manor_graph (plots_section manor_example) (kg_nodes manor_graph) =
     [(''Delilah'', ''Manor''), (''Manor'', ''Cellar''), (''Manor'', ''Delilah''),
      (''Manor'', ''Cellar'')]"
  by code_simp

lemma chain_run_train:
  "text_kg_train [''G'' \<mapsto> chain_graph] chain_example =
     Inr \<lparr>background = ''Aaa is a location. \<newline>Aaa is a location. \<newline>Aaa is connected to Bbb. \<newline>Bbb is a location. \<newline>Bbb is connected to Ccc. \<newline>Ccc is a location. \<newline>Ccc is connected to Ddd. \<newline>'',
          completed_rels = [(''Aaa'', ''Bbb''), (''Bbb'', ''Ccc''), (''Ccc'', ''Ddd'')],
          completed_nodes = [''Aaa'', ''Bbb'', ''Ccc'', ''Ddd'']\<rparr>"
  by code_simp

lemma chain_traversal_train:
  "plot_traversal None chain_graph (plots_section chain_example) (kg_nodes chain_graph) =
     [(''Aaa'', ''Bbb''), (''Bbb'', ''Ccc''), (''Ccc'', ''Ddd'')]"
  by code_simp

lemma manor_fresh_depth_one:
  "fresh_edges []
     (plot_traversal (Some (nat 1)) manor_graph (plots_section manor_example) (kg_nodes manor_graph)) =
     [(''Delilah'', ''Manor''), (''Manor'', ''Cellar'')]"
  by code_simp

lemma manor_fresh_depth_two:
  "fresh_edges [(''Delilah'', ''Manor'')]
     (plot_traversal (Some (nat 2)) manor_graph (plots_section manor_example) (kg_nodes manor_graph)) =
     [(''Manor'', ''Cellar'')]"
  by code_simp

lemma chain_fresh_train:
  "fresh_edges []
     (plot_traversal None chain_graph (plots_section chain_example) (kg_nodes chain_graph)) =
     [(''Aaa'', ''Bbb''), (''Bbb'', ''Ccc''), (''Ccc'', ''Ddd'')]"
  by code_simp

theorem traversal_only_for_positive_depth_witness:
  "text_kg_gen 0 [''G'' \<mapsto> manor_graph] manor_example (\<lambda>i. 0) =
     Inr \<lparr>background = ''Delilah is a character. Delilah is present in Manor. \<newline>'',
          completed_rels = [(''Delilah'', ''Manor'')], completed_nodes = [''Delilah'']\<rparr> \<and>
   (\<exists>st stA g'.
      text_kg_gen 1 [''G'' \<mapsto> manor_graph] manor_example (\<lambda>i. 0) = Inr st \<and>
      phase_a_gen 1 (ex_kbs manor_example) (\<lambda>i. 0) = Inr (stA, g') \<and>
      completed_rels stA = [] \<and>
      completed_rels st = [(''Delilah'', ''Manor''), (''Manor'', ''Cellar'')] \<and>
      background st =
        background stA @
        concat (map (event_text manor_graph)
          [Introduce ''Manor'' ''Manor'', Relate ''Delilah'' ''Manor'',
           Introduce ''Cellar'' ''Cellar'', Relate ''Manor'' ''Cellar'']) \<and>
      within_hops manor_graph (nat 1) ''Manor'' ''Cellar'') \<and>
   (\<exists>st'.
      text_kg_train [''G'' \<mapsto> chain_graph] chain_example = Inr st' \<and>
      completed_rels st' = [(''Aaa'', ''Bbb''), (''Bbb'', ''Ccc''), (''Ccc'', ''Ddd'')])"
proof (intro conjI)
  have "text_kg_gen 0 [''G'' \<mapsto> manor_graph] manor_example (\<lambda>i. 0) =
      Inr (phase_a_all (ex_kbs manor_example))"
    using traversal_only_for_positive_depth [of 0 "[''G'' \<mapsto> manor_graph]" manor_example "\<lambda>i. 0"]
    by simp
  then show "text_kg_gen 0 [''G'' \<mapsto> manor_graph] manor_example (\<lambda>i. 0) =
     Inr \<lparr>background = ''Delilah is a character. Delilah is present in Manor. \<newline>'',
          completed_rels = [(''Delilah'', ''Manor'')], completed_nodes = [''Delilah'']\<rparr>"
    by (simp add: phase_a_all_def manor_example_def kb_block_all_def)
next
  obtain st where run: "text_kg_gen 1 [''G'' \<mapsto> manor_graph] manor_example (\<lambda>i. 0) = Inr st"
    using manor_run_depth_one by blast
  have pos: "(0::int) < 1"
    by simp
  let ?tr = "plot_traversal (Some (nat 1)) manor_graph (plots_section manor_example)
               (kg_nodes manor_graph)"
  from traversal_only_for_positive_depth [of 1 "[''G'' \<mapsto> manor_graph]" manor_example "\<lambda>i. 0" st,
      THEN conjunct2, THEN conjunct1, rule_format, OF pos run]
  obtain kg stA g' where
    k: "[''G'' \<mapsto> manor_graph] (ex_game manor_example) = Some kg" and
    a: "phase_a_gen 1 (ex_kbs manor_example) (\<lambda>i. 0) = Inr (stA, g')" and
    r: "completed_rels st =
          completed_rels stA @
          fresh_edges (completed_rels stA)
            (plot_traversal (Some (nat 1)) kg (plots_section manor_example) (kg_nodes kg))" and
    b: "background st =
          background stA @
          concat (map (event_text kg)
            (edge_events False (completed_nodes stA)
              (fresh_edges (completed_rels stA)
                (plot_traversal (Some (nat 1)) kg (plots_section manor_example) (kg_nodes kg)))))" and
    h: "\<forall>e \<in> set (plot_traversal (Some (nat 1)) kg (plots_section manor_example) (kg_nodes kg)).
          \<exists>node \<in> set (kg_nodes kg).
            str_in (lower (fst node)) (lower (plots_section manor_example)) \<and>
            e \<in> set (dfs_edges kg (fst node) (Some (nat 1))) \<and>
            within_hops kg (nat 1) (fst node) (snd e)"
    by blast
  from k have kg: "kg = manor_graph"
    by (simp add: manor_example_def)
  from a manor_phase_a_depth_one have stA: "completed_rels stA = []"
    "completed_nodes stA = [''Delilah'']"
    by auto
  have fresh: "fresh_edges [] ?tr = [(''Delilah'', ''Manor''), (''Manor'', ''Cellar'')]"
    by (rule manor_fresh_depth_one)
  have rels: "completed_rels st = [(''Delilah'', ''Manor''), (''Manor'', ''Cellar'')]"
    using r by (simp only: kg stA fresh append_Nil)
  have bg: "background st =
        background stA @
        concat (map (event_text manor_graph)
          [Introduce ''Manor'' ''Manor'', Relate ''Delilah'' ''Manor'',
           Introduce ''Cellar'' ''Cellar'', Relate ''Manor'' ''Cellar''])"
    using b by (simp only: kg stA fresh) simp
  have "(''Manor'', ''Cellar'') \<in> set ?tr"
    by code_simp
  with h kg obtain node where "node \<in> set (kg_nodes manor_graph)"
    "(''Manor'', ''Cellar'') \<in> set (dfs_edges manor_graph (fst node) (Some (nat 1)))"
    "within_hops manor_graph (nat 1) (fst node) ''Cellar''"
    by fastforce
  moreover have "\<forall>node \<in> set (kg_nodes manor_graph).
      (''Manor'', ''Cellar'') \<in> set (dfs_edges manor_graph (fst node) (Some (nat 1))) \<longrightarrow>
      fst node = ''Manor''"
    by code_simp
  ultimately have hop: "within_hops manor_graph (nat 1) ''Manor'' ''Cellar''"
    by auto
  from run a stA(1) rels bg hop
  show "\<exists>st stA g'.
      text_kg_gen 1 [''G'' \<mapsto> manor_graph] manor_example (\<lambda>i. 0) = Inr st \<and>
      phase_a_gen 1 (ex_kbs manor_example) (\<lambda>i. 0) = Inr (stA, g') \<and>
      completed_rels stA = [] \<and>
      completed_rels st = [(''Delilah'', ''Manor''), (''Manor'', ''Cellar'')] \<and>
      background st =
        background stA @
        concat (map (event_text manor_graph)
          [Introduce ''Manor'' ''Manor'', Relate ''Delilah'' ''Manor'',
           Introduce ''Cellar'' ''Cellar'', Relate ''Manor'' ''Cellar'']) \<and>
      within_hops manor_graph (nat 1) ''Manor'' ''Cellar''"
    by blast
next
  obtain st' where run: "text_kg_train [''G'' \<mapsto> chain_graph] chain_example = Inr st'"
    using chain_run_train by blast
  from traversal_only_for_positive_depth [of _ "[''G'' \<mapsto> chain_graph]" chain_example _ _ st',
      THEN conjunct2, THEN conjunct2, rule_format, OF run]
  obtain kg where
    k: "[''G'' \<mapsto> chain_graph] (ex_game chain_example) = Some kg" and
    r: "completed_rels st' =
          completed_rels (fold kb_step_train (ex_kbs chain_example) init_state) @
          fresh_edges (completed_rels (fold kb_step_train (ex_kbs chain_example) init_state))
            (plot_traversal None kg (plots_section chain_example) (kg_nodes kg))"
    by blast
  from k have kg: "kg = chain_graph"
    by (simp add: chain_example_def)
  have a: "completed_rels (fold kb_step_train (ex_kbs chain_example) init_state) = []"
    by (simp add: chain_example_def init_state_def)
  have "completed_rels st' = [(''Aaa'', ''Bbb''), (''Bbb'', ''Ccc''), (''Ccc'', ''Ddd'')]"
    using r by (simp only: kg a chain_fresh_train append_Nil)
  with run show "\<exists>st'.
      text_kg_train [''G'' \<mapsto> chain_graph] chain_example = Inr st' \<and>
      completed_rels st' = [(''Aaa'', ''Bbb''), (''Bbb'', ''Ccc''), (''Ccc'', ''Ddd'')]"
    by blast
qed

theorem training_traverses_without_limit_counterexample:
  "text_kg_train [''G'' \<mapsto> chain_graph] chain_example =
     Inr \<lparr>background = ''Aaa is a location. \<newline>Aaa is a location. \<newline>Aaa is connected to Bbb. \<newline>Bbb is a location. \<newline>Bbb is connected to Ccc. \<newline>Ccc is a location. \<newline>Ccc is connected to Ddd. \<newline>'',
          completed_rels = [(''Aaa'', ''Bbb''), (''Bbb'', ''Ccc''), (''Ccc'', ''Ddd'')],
          completed_nodes = [''Aaa'', ''Bbb'', ''Ccc'', ''Ddd'']\<rparr> \<and>
   \<not> within_hops chain_graph 2 ''Aaa'' ''Ddd'' \<and>
   text_kg_gen 2 [''G'' \<mapsto> chain_graph] chain_example (\<lambda>i. 0) =
     Inr \<lparr>background = ''Aaa is a location. \<newline>Bbb is a location. \<newline>Aaa is connected to Bbb. \<newline>Ccc is a location. \<newline>Bbb is connected to Ccc. \<newline>'',
          completed_rels = [(''Aaa'', ''Bbb''), (''Bbb'', ''Ccc'')],
          completed_nodes = [''Aaa'', ''Bbb'', ''Ccc'']\<rparr>"
  by code_simp

section \<open>No pair and no node twice in Phase B\<close>












end
